theory Spec2Isabelle
  imports Main "HOL-Library.AList"
begin

section \<open>Python string primitives used by the module\<close>

text \<open>
  Strings are byte strings (the module supports Python 2.7): a \<open>string\<close> is a list of
  8-bit characters, \<open>\s\<close> and \<open>str.rstrip()\<close> use the six ASCII whitespace characters,
  and \<open>\d\<close> the ten ASCII digits.
\<close>

definition newline :: char where
  "newline = CHR 0x0A"

definition isspace :: "char \<Rightarrow> bool" where
  "isspace c = (c \<in> set [CHR '' '', CHR 0x09, CHR 0x0A, CHR 0x0B, CHR 0x0C, CHR 0x0D])"

definition isdigit :: "char \<Rightarrow> bool" where
  "isdigit c = (c \<in> set ''0123456789'')"

text \<open>\<open>s.rstrip()\<close>: drop the trailing whitespace.\<close>

definition rstrip :: "string \<Rightarrow> string" where
  "rstrip s = rev (dropWhile isspace (rev s))"

text \<open>\<open>s.split('\n')\<close>: never empty, \<open>''.split('\n') == ['']\<close>.\<close>

fun split_nl :: "string \<Rightarrow> string list" where
  "split_nl [] = [[]]"
| "split_nl (c # cs) =
     (if c = newline then [] # split_nl cs
      else (case split_nl cs of [] \<Rightarrow> [[c]] | l # ls \<Rightarrow> (c # l) # ls))"

text \<open>\<open>s.find(sub)\<close>: the lowest index where \<open>sub\<close> occurs in \<open>s\<close>, or \<open>-1\<close>.\<close>

primrec find_at :: "string \<Rightarrow> string \<Rightarrow> nat \<Rightarrow> int" where
  "find_at sub [] i = (if sub = [] then int i else - 1)"
| "find_at sub (c # cs) i =
     (if take (length sub) (c # cs) = sub then int i else find_at sub cs (Suc i))"

definition str_find :: "string \<Rightarrow> string \<Rightarrow> int" where
  "str_find s sub = find_at sub s 0"

text \<open>\<open>sep.join(xs)\<close> on a list of strings.\<close>

fun join :: "string \<Rightarrow> string list \<Rightarrow> string" where
  "join sep [] = []"
| "join sep [x] = x"
| "join sep (x # y # ys) = x @ sep @ join sep (y # ys)"

text \<open>\<open>str(n)\<close> for an integer, as \<open>'{0}'.format(n)\<close> renders it.\<close>

fun show_nat :: "nat \<Rightarrow> string" where
  "show_nat n =
     (if n < 10 then [''0123456789'' ! n]
      else show_nat (n div 10) @ [''0123456789'' ! (n mod 10)])"

definition show_int :: "int \<Rightarrow> string" where
  "show_int i = (if i < 0 then CHR ''-'' # show_nat (nat (- i)) else show_nat (nat i))"

text \<open>\<open>int(s)\<close> on a string of ASCII digits (what \<open>\d+\<close> captured): most significant first.\<close>

definition digit_val :: "char \<Rightarrow> int" where
  "digit_val c = int (of_char c) - 48"

definition int_of_digits :: "string \<Rightarrow> int" where
  "int_of_digits s = foldl (\<lambda>acc c. 10 * acc + digit_val c) 0 s"

datatype exn = KeyError | TypeError | ValueError

text \<open>
  \<open>int(s)\<close> on an arbitrary token (Python 2.7): an optional sign followed by at least
  one ASCII digit; anything else raises \<open>ValueError\<close>.
\<close>

definition py_int :: "string \<Rightarrow> int option" where
  "py_int s =
     (case s of
        [] \<Rightarrow> None
      | c # cs \<Rightarrow>
          if c = CHR ''-'' \<and> cs \<noteq> [] \<and> list_all isdigit cs then Some (- int_of_digits cs)
          else if c = CHR ''+'' \<and> cs \<noteq> [] \<and> list_all isdigit cs then Some (int_of_digits cs)
          else if list_all isdigit (c # cs) then Some (int_of_digits (c # cs))
          else None)"

section \<open>The regular expressions of the module\<close>

text \<open>
  \<open>re.match(pattern, line)\<close> for the pattern language the module uses: single-character
  classes, greedy \<open>+\<close> and \<open>*\<close> on a class, capture groups (not nested) and \<open>$\<close>.
  The match is anchored at the start of the line (so a leading \<open>^\<close> adds nothing) and
  need not reach its end. A pattern is the list of its items; \<open>Open\<close> and \<open>Close\<close>
  are the parentheses of a group.
\<close>

datatype cclass = Lit char | Digit | Space | NonSpace | AnyChar

fun cmatch :: "cclass \<Rightarrow> char \<Rightarrow> bool" where
  "cmatch (Lit a) c = (c = a)"
| "cmatch Digit c = isdigit c"
| "cmatch Space c = isspace c"
| "cmatch NonSpace c = (\<not> isspace c)"
| "cmatch AnyChar c = (c \<noteq> newline)"

datatype item = Chr cclass | Rep cclass nat | Open | Close | Eol

text \<open>Try the counts \<open>n, n - 1, ..., lo\<close> in this order: a greedy quantifier backtracking.\<close>

primrec try_down :: "(nat \<Rightarrow> 'a option) \<Rightarrow> nat \<Rightarrow> nat \<Rightarrow> 'a option" where
  "try_down f lo 0 = (if lo = 0 then f 0 else None)"
| "try_down f lo (Suc n) =
     (if Suc n < lo then None
      else (case f (Suc n) of Some r \<Rightarrow> Some r | None \<Rightarrow> try_down f lo n))"

text \<open>
  \<open>rmatch p g s\<close>: match the rest \<open>p\<close> of the pattern against the rest \<open>s\<close> of the line;
  \<open>g\<close> holds the text consumed since the last \<open>Open\<close> (\<open>None\<close> outside a group).
  The result is the list of the groups' texts, \<open>group(1)\<close> first.
\<close>

primrec rmatch :: "item list \<Rightarrow> string option \<Rightarrow> string \<Rightarrow> string list option" where
  "rmatch [] g s = Some []"
| "rmatch (i # p) g s =
     (case i of
        Open \<Rightarrow> rmatch p (Some []) s
      | Close \<Rightarrow> map_option (\<lambda>cs. (case g of None \<Rightarrow> [] | Some a \<Rightarrow> a) # cs) (rmatch p None s)
      | Eol \<Rightarrow> if s = [] \<or> s = [newline] then rmatch p g s else None
      | Chr c \<Rightarrow>
          (case s of
             [] \<Rightarrow> None
           | x # xs \<Rightarrow> if cmatch c x then rmatch p (map_option (\<lambda>a. a @ [x]) g) xs else None)
      | Rep c lo \<Rightarrow>
          try_down (\<lambda>n. rmatch p (map_option (\<lambda>a. a @ take n s) g) (drop n s)) lo
            (length (takeWhile (cmatch c) s)))"

definition re_match :: "item list \<Rightarrow> string \<Rightarrow> string list option" where
  "re_match p line = rmatch p None line"

definition lit :: "string \<Rightarrow> item list" where
  "lit s = map (\<lambda>c. Chr (Lit c)) s"

section \<open>Commands, results and outcomes\<close>

text \<open>
  A command line is a Python list whose items are strings, except that the mirror
  restoration command carries the copy count as an integer.
\<close>

datatype arg = S string | I int

type_synonym cmd = "arg list"

text \<open>What \<open>module.run_command\<close> returns: exit code, standard output, standard error.\<close>

type_synonym reply = "int \<times> string \<times> string"

text \<open>
  The host is an opaque collaborator: it answers a command, and its answer may depend on
  the commands run before it in this invocation.
\<close>

type_synonym world = "cmd list \<Rightarrow> cmd \<Rightarrow> reply"

text \<open>The global \<open>results\<close> dictionary of the module.\<close>

record results =
  changed :: bool
  msg :: string
  stdout :: string
  stderr :: string

text \<open>
  The messages passed to \<open>module.log\<close>. The message of line 506 formats a list with
  Python's \<open>repr\<close>; it is kept as the list. Calls of \<open>module.debug\<close> and
  \<open>module.info\<close> leave no mark.
\<close>

datatype logmsg = Msg string | UsingDisks "string list"

text \<open>
  The state threaded through an invocation: the results dictionary, the commands run so
  far with their replies (oldest first), and the log.
\<close>

record state =
  res :: results
  trace :: "(cmd \<times> reply) list"
  logs :: "logmsg list"

text \<open>
  How a function of the module ends: it returns a value, \<open>module.fail_json\<close> or
  \<open>module.exit_json\<close> ends the process with the results, or a Python exception escapes.
\<close>

datatype 'a outcome = Return 'a state | FailJson state | ExitJson state | Raise exn state

definition run_command :: "world \<Rightarrow> cmd \<Rightarrow> state \<Rightarrow> reply \<times> state" where
  "run_command w c st =
     (let r = w (map fst (trace st)) c in (r, st\<lparr>trace := trace st @ [(c, r)]\<rparr>))"

definition log :: "string \<Rightarrow> state \<Rightarrow> state" where
  "log m st = st\<lparr>logs := logs st @ [Msg m]\<rparr>"

definition set_msg :: "string \<Rightarrow> state \<Rightarrow> state" where
  "set_msg m st = st\<lparr>res := (res st)\<lparr>msg := m\<rparr>\<rparr>"

definition set_output :: "string \<Rightarrow> string \<Rightarrow> state \<Rightarrow> state" where
  "set_output out err st = st\<lparr>res := (res st)\<lparr>stdout := out, stderr := err\<rparr>\<rparr>"

definition set_changed :: "state \<Rightarrow> state" where
  "set_changed st = st\<lparr>res := (res st)\<lparr>changed := True\<rparr>\<rparr>"

text \<open>\<open>' '.join(cmd)\<close>: raises \<open>TypeError\<close> when an item is not a string.\<close>

fun arg_strs :: "arg list \<Rightarrow> string list option" where
  "arg_strs [] = Some []"
| "arg_strs (S s # as) = map_option ((#) s) (arg_strs as)"
| "arg_strs (I n # as) = None"

text \<open>\<open>'Command \'{0}\' failed with return code {1}.'.format(' '.join(cmd), ret)\<close>\<close>

definition failed_msg :: "string list \<Rightarrow> int \<Rightarrow> string" where
  "failed_msg ws ret =
     ''Command '' @ [CHR 0x27] @ join '' '' ws @ [CHR 0x27] @
     '' failed with return code '' @ show_int ret @ ''.''"

section \<open>The inventory of physical volumes\<close>

text \<open>
  A dictionary is an association list with distinct keys, in insertion order; setting
  an existing key keeps its place (\<open>AList.update\<close>).
\<close>

record pv =
  pv_pvid :: string
  pv_vg :: string
  pv_status :: string

record free_pv =
  free_pvid :: string
  free_size :: int

text \<open>\<open>match_key.group(k)\<close>, for \<open>k\<close> from 1.\<close>

definition group :: "string list \<Rightarrow> nat \<Rightarrow> string" where
  "group gs k = gs ! (k - 1)"

text \<open>\<^verbatim>\<open>^(hdisk\S+)\s+(\S+)\s+(\S+)\s*(\S*)\<close>\<close>

definition lspv_rx :: "item list" where
  "lspv_rx =
     [Open] @ lit ''hdisk'' @ [Rep NonSpace 1, Close, Rep Space 1,
      Open, Rep NonSpace 1, Close, Rep Space 1,
      Open, Rep NonSpace 1, Close, Rep Space 0,
      Open, Rep NonSpace 0, Close]"

text \<open>\<^verbatim>\<open>^(hdisk\S+)\s+(\S+)\s+(\S+)\<close>\<close>

definition lspv_free_rx :: "item list" where
  "lspv_free_rx =
     [Open] @ lit ''hdisk'' @ [Rep NonSpace 1, Close, Rep Space 1,
      Open, Rep NonSpace 1, Close, Rep Space 1,
      Open, Rep NonSpace 1, Close]"

definition lspv_line :: "(string \<times> pv) list \<Rightarrow> string \<Rightarrow> (string \<times> pv) list" where
  "lspv_line pvs line =
     (case re_match lspv_rx (rstrip line) of
        None \<Rightarrow> pvs
      | Some gs \<Rightarrow>
          AList.update (group gs 1)
            \<lparr>pv_pvid = group gs 2, pv_vg = group gs 3, pv_status = group gs 4\<rparr> pvs)"

text \<open>\<open>get_pvs\<close>: \<open>None\<close> when the listing command fails.\<close>

definition get_pvs :: "world \<Rightarrow> state \<Rightarrow> (string \<times> pv) list option \<times> state" where
  "get_pvs w st =
     (let ws = [''/usr/ios/cli/ioscli'', ''lspv''];
          (r, st1) = run_command w (map S ws) st
      in case r of (ret, out, err) \<Rightarrow>
        if ret \<noteq> 0 then (None, set_msg (failed_msg ws ret) (set_output out err st1))
        else (Some (foldl lspv_line [] (split_nl out)), st1))"

text \<open>
  The loop of \<open>get_free_pvs\<close>; \<open>int(match_key.group(3))\<close> raises \<open>ValueError\<close> on a
  third token that is not a number.
\<close>

fun free_lines :: "string list \<Rightarrow> (string \<times> free_pv) list \<Rightarrow> (string \<times> free_pv) list option" where
  "free_lines [] free_pvs = Some free_pvs"
| "free_lines (line # lines) free_pvs =
     (case re_match lspv_free_rx (rstrip line) of
        None \<Rightarrow> free_lines lines free_pvs
      | Some gs \<Rightarrow>
          (case py_int (group gs 3) of
             None \<Rightarrow> None
           | Some n \<Rightarrow>
               free_lines lines
                 (AList.update (group gs 1) \<lparr>free_pvid = group gs 2, free_size = n\<rparr> free_pvs)))"

definition get_free_pvs :: "world \<Rightarrow> state \<Rightarrow> (string \<times> free_pv) list option outcome" where
  "get_free_pvs w st =
     (let ws = [''/usr/ios/cli/ioscli'', ''lspv'', ''-free''];
          (r, st1) = run_command w (map S ws) st
      in case r of (ret, out, err) \<Rightarrow>
        if ret \<noteq> 0 then Return None (set_msg (failed_msg ws ret) (set_output out err st1))
        else (case free_lines (split_nl out) [] of
                None \<Rightarrow> Raise ValueError st1
              | Some free_pvs \<Rightarrow> Return (Some free_pvs) st1))"

section \<open>The inspection of rootvg (\<open>check_rootvg\<close>)\<close>

record rootvg_info =
  status :: int
  copy_dict :: "(int \<times> string) list"
  rootvg_size :: int
  used_size :: int

text \<open>\<^verbatim>\<open>^(\S+):\d+\s+\S+:\d+:(\d+)$\<close>\<close>

definition mirror_rx :: "item list" where
  "mirror_rx =
     [Open, Rep NonSpace 1, Close, Chr (Lit CHR '':''), Rep Digit 1, Rep Space 1,
      Rep NonSpace 1, Chr (Lit CHR '':''), Rep Digit 1, Chr (Lit CHR '':''),
      Open, Rep Digit 1, Close, Eol]"

text \<open>\<^verbatim>\<open>^(\S+):\d+\s+\S+:\d+$\<close>\<close>

definition single_rx :: "item list" where
  "single_rx =
     [Open, Rep NonSpace 1, Close, Chr (Lit CHR '':''), Rep Digit 1, Rep Space 1,
      Rep NonSpace 1, Chr (Lit CHR '':''), Rep Digit 1, Eol]"

text \<open>\<^verbatim>\<open>^(\S+)\s+\S+\s+(\d+)\s+\d+\s+\S+\<close>\<close>

definition lsvg_p_rx :: "item list" where
  "lsvg_p_rx =
     [Open, Rep NonSpace 1, Close, Rep Space 1, Rep NonSpace 1, Rep Space 1,
      Open, Rep Digit 1, Close, Rep Space 1, Rep Digit 1, Rep Space 1, Rep NonSpace 1]"

text \<open>\<^verbatim>\<open>.*TOTAL PPs:\s+\d+\s+\((\d+)\s+megabytes\).*\<close>\<close>

definition total_rx :: "item list" where
  "total_rx =
     [Rep AnyChar 0] @ lit ''TOTAL PPs:'' @
     [Rep Space 1, Rep Digit 1, Rep Space 1, Chr (Lit CHR ''(''), Open, Rep Digit 1, Close,
      Rep Space 1] @ lit ''megabytes)'' @ [Rep AnyChar 0]"

text \<open>\<^verbatim>\<open>.*PP SIZE:\s+(\d+)\s+megabyte\(s\)\<close>\<close>

definition pp_rx :: "item list" where
  "pp_rx =
     [Rep AnyChar 0] @ lit ''PP SIZE:'' @
     [Rep Space 1, Open, Rep Digit 1, Close, Rep Space 1] @ lit ''megabyte(s)''"

text \<open>
  Lines 382 to 393: the disk and the copy number of a line of the map, \<open>None\<close> for a
  line of another shape (\<open>continue\<close>).
\<close>

definition parse_map_line :: "string \<Rightarrow> (string \<times> int) option" where
  "parse_map_line line =
     (case re_match mirror_rx line of
        Some gs \<Rightarrow> Some (group gs 1, int_of_digits (group gs 2))
      | None \<Rightarrow>
          (case re_match single_rx line of
             Some gs \<Rightarrow> Some (group gs 1, 1)
           | None \<Rightarrow> None))"

definition msg_same_disk :: string where
  "msg_same_disk =
     ''rootvg data structure is not compatible with an '' @
     ''alt_disk_copy operation (2 copies on the same disk)''"

definition msg_not_compatible :: string where
  "msg_not_compatible =
     ''rootvg data structure is not compatible with an alt_disk_copy operation''"

definition msg_spread :: string where
  "msg_spread =
     ''The rootvg is partially or completely mirrored but some '' @
     ''LP copies are spread on several disks. This prevents the '' @
     ''system from creating an alternate rootvg disk copy.''"

text \<open>
  Lines 381 to 410, the loop over the lines of the map. The loop state is
  \<open>(nb_lp, hdict, cdict)\<close>, with \<open>hdict\<close> for the source's \<open>hdisk_dict\<close> and
  \<open>cdict\<close> for its \<open>copy_dict\<close>; \<open>Inl m\<close> is the early \<open>return None\<close> with
  \<open>results['msg'] = m\<close>.
\<close>

fun map_loop ::
  "string list \<Rightarrow> int \<times> (string \<times> int) list \<times> (int \<times> string) list \<Rightarrow>
   string + (int \<times> (string \<times> int) list \<times> (int \<times> string) list)" where
  "map_loop [] acc = Inr acc"
| "map_loop (line # lines) (nb_lp, hdict, cdict) =
     (case parse_map_line (rstrip line) of
        None \<Rightarrow> map_loop lines (nb_lp, hdict, cdict)
      | Some (hdisk, copy) \<Rightarrow>
          (let nb_lp1 = (if copy = 1 then nb_lp + 1 else nb_lp) in
           case map_of hdict hdisk of
             Some c \<Rightarrow>
               if c \<noteq> copy then Inl msg_same_disk
               else if copy \<notin> fst ` set cdict then
                 (if hdisk \<in> snd ` set cdict then Inl msg_not_compatible
                  else map_loop lines (nb_lp1, hdict, AList.update copy hdisk cdict))
               else map_loop lines (nb_lp1, hdict, cdict)
           | None \<Rightarrow>
               if copy \<notin> fst ` set cdict then
                 (if hdisk \<in> snd ` set cdict then Inl msg_not_compatible
                  else map_loop lines
                         (nb_lp1, AList.update hdisk copy hdict,
                          AList.update copy hdisk cdict))
               else map_loop lines (nb_lp1, AList.update hdisk copy hdict, cdict)))"

text \<open>
  Lines 434 to 441, the loop over the lines of \<open>lsvg -p rootvg\<close>: every row sets
  \<open>pv_size\<close>, the row of the disk of copy 1 ends the loop. \<open>copy_dict[1]\<close> raises
  \<open>KeyError\<close> when no line of the map had copy number 1.
\<close>

fun pv_loop :: "string list \<Rightarrow> (int \<times> string) list \<Rightarrow> int \<Rightarrow> exn + int" where
  "pv_loop [] cdict pv_size = Inr pv_size"
| "pv_loop (line # lines) cdict pv_size =
     (case re_match lsvg_p_rx (rstrip line) of
        None \<Rightarrow> pv_loop lines cdict pv_size
      | Some gs \<Rightarrow>
          (case map_of cdict 1 of
             None \<Rightarrow> Inl KeyError
           | Some d \<Rightarrow>
               if group gs 1 = d then Inr (int_of_digits (group gs 2))
               else pv_loop lines cdict (int_of_digits (group gs 2))))"

text \<open>
  Lines 458 to 468, the body of the loop over the lines of \<open>lsvg rootvg\<close>, on the
  pair \<open>(total_size, pp_size)\<close>.
\<close>

definition summary_line :: "int \<times> int \<Rightarrow> string \<Rightarrow> int \<times> int" where
  "summary_line acc line =
     (case acc of (total_size, pp_size) \<Rightarrow>
        (case re_match total_rx (rstrip line) of
           Some gs \<Rightarrow> (int_of_digits (group gs 1), pp_size)
         | None \<Rightarrow>
             (case re_match pp_rx (rstrip line) of
                Some gs \<Rightarrow> (total_size, int_of_digits (group gs 1))
              | None \<Rightarrow> (total_size, pp_size))))"

text \<open>
  Lines 447 to 483: the summary of rootvg, the sizes, and the returned dictionary.
\<close>

definition rootvg_sizes ::
  "world \<Rightarrow> int \<Rightarrow> (int \<times> string) list \<Rightarrow> int \<Rightarrow> state \<Rightarrow> rootvg_info option outcome" where
  "rootvg_sizes w nb_lp cdict pv_size st =
     (let ws = [''/usr/sbin/lsvg'', ''rootvg''];
          (r, st1) = run_command w (map S ws) st
      in case r of (ret, out, err) \<Rightarrow>
        if ret \<noteq> 0 then Return None (set_msg (failed_msg ws ret) (set_output out err st1))
        else
          (case foldl summary_line (- 1, - 1) (split_nl out) of (total_size, pp_size) \<Rightarrow>
             if pp_size = - 1
             then Return None (set_msg ''Failed to get rootvg pp size, parsing error'' st1)
             else
               Return
                 (Some \<lparr>status = 0, copy_dict = cdict,
                        rootvg_size =
                          (if length cdict > 1 then pp_size * pv_size else total_size),
                        used_size = pp_size * (nb_lp + 1)\<rparr>)
                 st1))"

text \<open>
  Lines 412 to 445, for a mirrored rootvg: the consistency of the two dictionaries and
  the size in partitions of the disk of copy 1; then the rest of the function.
\<close>

definition rootvg_mirrored ::
  "world \<Rightarrow> int \<Rightarrow> (string \<times> int) list \<Rightarrow> (int \<times> string) list \<Rightarrow> state \<Rightarrow>
   rootvg_info option outcome" where
  "rootvg_mirrored w nb_lp hdict cdict st =
     (if length cdict \<noteq> length hdict then Return None (set_msg msg_spread st)
      else
        (let ws = [''/usr/sbin/lsvg'', ''-p'', ''rootvg''];
             (r, st1) = run_command w (map S ws) st
         in case r of (ret, out, err) \<Rightarrow>
           if ret \<noteq> 0 then Return None (set_msg (failed_msg ws ret) (set_output out err st1))
           else
             (case pv_loop (split_nl out) cdict (- 1) of
                Inl e \<Rightarrow> Raise e st1
              | Inr pv_size \<Rightarrow>
                  if pv_size = - 1
                  then Return None (set_msg ''Failed to get pv size, parsing error'' st1)
                  else rootvg_sizes w nb_lp cdict pv_size st1)))"

text \<open>
  \<open>check_rootvg\<close>: \<open>Return None\<close> is the source's \<open>return None\<close> (the caller then
  fails with the message left in the results), \<open>Return (Some info)\<close> the dictionary
  with status 0.
\<close>

definition check_rootvg :: "world \<Rightarrow> state \<Rightarrow> rootvg_info option outcome" where
  "check_rootvg w st =
     (let ws = [''/usr/sbin/lsvg'', ''-M'', ''rootvg''];
          (r, st1) = run_command w (map S ws) st
      in case r of (ret, out, err) \<Rightarrow>
        if ret \<noteq> 0 then Return None (set_msg (failed_msg ws ret) (set_output out err st1))
        else if str_find out ''stale'' > 0
        then Return None (set_msg ''rootvg contains stale partitions'' (set_output out err st1))
        else
          (case map_loop (split_nl out) (0, [], []) of
             Inl m \<Rightarrow> Return None (set_msg m st1)
           | Inr (nb_lp, hdict, cdict) \<Rightarrow>
               if length cdict > 1 then rootvg_mirrored w nb_lp hdict cdict st1
               else rootvg_sizes w nb_lp cdict (- 1) st1))"

section \<open>The choice of the alternate disks (\<open>find_valid_altdisk\<close>)\<close>

text \<open>
  \<open>disk_size_policy\<close>: the argument specification admits these four values only.
\<close>

datatype policy = Minimize | Upper | Lower | Nearest

text \<open>
  Lines 212 to 222 and 618 to 627: clear the owning volume group from each disk, stopping
  at the first command that fails.
\<close>

fun clear_disks :: "world \<Rightarrow> string list \<Rightarrow> state \<Rightarrow> unit outcome" where
  "clear_disks w [] st = Return () st"
| "clear_disks w (hdisk # hdisks) st =
     (let ws = [''/usr/sbin/chpv'', ''-C'', hdisk];
          (r, st1) = run_command w (map S ws)
                       (log (''Clearing the owning VG from disk '' @ hdisk) st)
      in case r of (ret, out, err) \<Rightarrow>
        if ret \<noteq> 0 then FailJson (set_msg (failed_msg ws ret) (set_output out err st1))
        else clear_disks w hdisks st1)"

text \<open>
  Lines 240 to 280, the loop over the free disks in increasing size order. It returns
  \<open>(selected_disk, prev_disk)\<close> as the loop leaves them; the empty string is the
  source's "none yet".
\<close>

fun auto_loop ::
  "policy \<Rightarrow> int \<Rightarrow> int \<Rightarrow> (string \<times> free_pv) list \<Rightarrow> string \<Rightarrow> int \<Rightarrow> string \<times> string" where
  "auto_loop pol used_sz rootvg_sz [] prev_disk prev_diffsize = ([], prev_disk)"
| "auto_loop pol used_sz rootvg_sz ((hdisk, p) # rest) prev_disk prev_diffsize =
     (if free_size p < used_sz
      then auto_loop pol used_sz rootvg_sz rest prev_disk prev_diffsize
      else if pol = Minimize then (hdisk, prev_disk)
      else
        (let diffsize = free_size p - rootvg_sz in
         if diffsize = 0 then (hdisk, prev_disk)
         else if diffsize > 0 then
           (if pol = Upper then (hdisk, prev_disk)
            else if pol = Lower then
              (if prev_disk = [] then (hdisk, prev_disk) else (prev_disk, prev_disk))
            else
              (if prev_disk = [] then (hdisk, prev_disk)
               else if \<bar>prev_diffsize\<bar> > diffsize then (hdisk, prev_disk)
               else (prev_disk, prev_disk)))
         else auto_loop pol used_sz rootvg_sz rest hdisk diffsize))"

text \<open>
  Lines 234 to 293, automatic mode: \<open>sorted\<close> is stable, so disks of equal size keep
  the order of the dictionary. The result is the list \<open>hdisks\<close> after \<open>append\<close>.
\<close>

definition auto_select ::
  "(string \<times> free_pv) list \<Rightarrow> rootvg_info \<Rightarrow> policy \<Rightarrow> state \<Rightarrow> string list outcome" where
  "auto_select pvs info pol st =
     (case auto_loop pol (used_size info) (rootvg_size info)
             (sort_key (\<lambda>kv. free_size (snd kv)) pvs) [] 0 of
        (selected_disk, prev_disk) \<Rightarrow>
          if selected_disk = [] then
            (if prev_disk \<noteq> [] then Return [prev_disk] st
             else FailJson
                    (set_msg (''No available alternate disk with size greater than '' @
                              show_int (rootvg_size info) @ '' MB found'') st))
          else Return [selected_disk] st)"

text \<open>
  Lines 298 to 303: the total size of the named disks; \<open>Inl hdisk\<close> for the first name
  that is not a free disk.
\<close>

fun sum_sizes :: "(string \<times> free_pv) list \<Rightarrow> string list \<Rightarrow> int \<Rightarrow> string + int" where
  "sum_sizes pvs [] tot_size = Inr tot_size"
| "sum_sizes pvs (hdisk # hdisks) tot_size =
     (case map_of pvs hdisk of
        None \<Rightarrow> Inl hdisk
      | Some p \<Rightarrow> sum_sizes pvs hdisks (tot_size + free_size p))"

definition msg_smaller :: string where
  "msg_smaller = ''[WARNING] Alternate disks smaller than the current rootvg.''"

definition msg_too_small :: "int \<Rightarrow> int \<Rightarrow> string" where
  "msg_too_small tot_size rootvg_sz =
     ''Alternate disks too small ('' @ show_int tot_size @ '' < '' @ show_int rootvg_sz @ '').''"

text \<open>Lines 296 to 312, the disks named by the caller.\<close>

definition check_targets ::
  "(string \<times> free_pv) list \<Rightarrow> string list \<Rightarrow> rootvg_info \<Rightarrow> state \<Rightarrow> string list outcome" where
  "check_targets pvs hdisks info st =
     (case sum_sizes pvs hdisks 0 of
        Inl hdisk \<Rightarrow>
          FailJson (set_msg (''Alternate disk '' @ hdisk @
                             '' is either not found or not available'') st)
      | Inr tot_size \<Rightarrow>
          if tot_size < rootvg_size info then
            (if tot_size \<ge> used_size info then Return hdisks (log msg_smaller st)
             else FailJson (set_msg (msg_too_small tot_size (rootvg_size info)) st))
          else Return hdisks st)"

text \<open>
  Lines 227 to 312: what \<open>find_valid_altdisk\<close> does once it holds the dictionary of the
  free disks.
\<close>

definition select_altdisk ::
  "(string \<times> free_pv) list \<Rightarrow> string list \<Rightarrow> rootvg_info \<Rightarrow> policy \<Rightarrow> state \<Rightarrow>
   string list outcome" where
  "select_altdisk pvs hdisks info pol st =
     (if pvs = [] then FailJson (set_msg ''No free disk available'' st)
      else if hdisks = [] then auto_select pvs info pol st
      else check_targets pvs hdisks info st)"

text \<open>Lines 224 to 226, then the selection.\<close>

definition select_from_free ::
  "world \<Rightarrow> string list \<Rightarrow> rootvg_info \<Rightarrow> policy \<Rightarrow> state \<Rightarrow> string list outcome" where
  "select_from_free w hdisks info pol st =
     (case get_free_pvs w st of
        Return None st1 \<Rightarrow> FailJson st1
      | Return (Some pvs) st1 \<Rightarrow> select_altdisk pvs hdisks info pol st1
      | FailJson st1 \<Rightarrow> FailJson st1
      | ExitJson st1 \<Rightarrow> ExitJson st1
      | Raise e st1 \<Rightarrow> Raise e st1)"

definition altinst_disks :: "(string \<times> pv) list \<Rightarrow> string list" where
  "altinst_disks pvs = map fst (filter (\<lambda>kv. pv_vg (snd kv) = ''altinst_rootvg'') pvs)"

text \<open>
  \<open>find_valid_altdisk\<close>: the list \<open>hdisks\<close> is mutated in place by the source; here it
  is the returned value. \<open>found_altdisk\<close> is the first disk of the alternate volume
  group, and the empty string is false.
\<close>

definition find_valid_altdisk ::
  "world \<Rightarrow> string list \<Rightarrow> rootvg_info \<Rightarrow> policy \<Rightarrow> bool \<Rightarrow> state \<Rightarrow> string list outcome" where
  "find_valid_altdisk w hdisks info pol force st =
     (if status info \<noteq> 0 then FailJson (set_msg ''Wrong rootvg state'' st)
      else
        (case get_pvs w st of
           (None, st1) \<Rightarrow> FailJson st1
         | (Some pvs, st1) \<Rightarrow>
             (case altinst_disks pvs of
                [] \<Rightarrow> select_from_free w hdisks info pol st1
              | found_altdisk # others \<Rightarrow>
                  if found_altdisk = [] then select_from_free w hdisks info pol st1
                  else if \<not> force
                  then FailJson (set_msg (''An alternate disk already exists on disk '' @
                                          found_altdisk) st1)
                  else
                    (let ws = [''/usr/sbin/alt_rootvg_op'', ''-X'', ''altinst_rootvg''];
                         (r, st2) = run_command w (map S ws) (log ''Removing altinst_rootvg'' st1)
                     in case r of (ret, out, err) \<Rightarrow>
                       if ret \<noteq> 0
                       then FailJson (set_msg (failed_msg ws ret) (set_output out err st2))
                       else
                         (case clear_disks w (altinst_disks pvs) (set_changed st2) of
                            Return u st3 \<Rightarrow> select_from_free w hdisks info pol st3
                          | FailJson st3 \<Rightarrow> FailJson st3
                          | ExitJson st3 \<Rightarrow> ExitJson st3
                          | Raise e st3 \<Rightarrow> Raise e st3)))))"

section \<open>The two operations\<close>

text \<open>Sequencing: a function that did not return ends the caller the same way.\<close>

fun and_then :: "'a outcome \<Rightarrow> ('a \<Rightarrow> state \<Rightarrow> 'b outcome) \<Rightarrow> 'b outcome" where
  "and_then (Return x st) f = f x st"
| "and_then (FailJson st) f = FailJson st"
| "and_then (ExitJson st) f = ExitJson st"
| "and_then (Raise e st) f = Raise e st"

text \<open>Lines 514 to 536: stop the mirroring of a mirrored rootvg.\<close>

definition suspend_mirror :: "world \<Rightarrow> bool \<Rightarrow> state \<Rightarrow> unit outcome" where
  "suspend_mirror w force st =
     (if \<not> force
      then FailJson (set_msg ''The rootvg is mirrored and force option is not set'' st)
      else
        (let ws = [''/usr/sbin/unmirrorvg'', ''rootvg''];
             (r, st1) = run_command w (map S ws) (log ''[WARNING] Stopping mirror'' st)
         in case r of (ret, out, err) \<Rightarrow>
           if ret \<noteq> 0 then FailJson (set_msg (failed_msg ws ret) (set_output out err st1))
           else if str_find err ''rootvg successfully unmirrored'' = - 1
           then FailJson (set_msg ''Failed to unmirror rootvg'' (set_output out err st1))
           else Return () st1))"

text \<open>
  The command line of line 549, completed at line 551: \<open>copies_h[2]\<close> and
  \<open>copies_h[3]\<close> raise \<open>KeyError\<close> on a missing copy number, and the copy count is an
  integer of the list.
\<close>

definition mirror_cmd :: "(int \<times> string) list \<Rightarrow> cmd option" where
  "mirror_cmd copies_h =
     (let nb_copies = int (length copies_h) in
      case map_of copies_h 2 of
        None \<Rightarrow> None
      | Some d2 \<Rightarrow>
          (let c = [S ''/usr/sbin/mirrorvg'', S ''-m'', S ''-c'', I nb_copies, S ''rootvg'', S d2]
           in if nb_copies > 2
              then (case map_of copies_h 3 of None \<Rightarrow> None | Some d3 \<Rightarrow> Some (c @ [S d3]))
              else Some c))"

text \<open>
  Lines 546 to 565: restore the mirroring. After a non-zero exit code the message is
  built with \<open>' '.join(cmd)\<close>, which raises on the integer of the command line.
\<close>

definition restore_mirror :: "world \<Rightarrow> (int \<times> string) list \<Rightarrow> state \<Rightarrow> unit outcome" where
  "restore_mirror w copies_h st =
     (let st0 = log ''Restoring mirror'' st in
      case mirror_cmd copies_h of
        None \<Rightarrow> Raise KeyError st0
      | Some c \<Rightarrow>
          (case run_command w c st0 of ((ret, out, err), st1) \<Rightarrow>
             if ret \<noteq> 0 then
               (case arg_strs c of
                  None \<Rightarrow> Raise TypeError (set_output out err st1)
                | Some ws \<Rightarrow> FailJson (set_msg (failed_msg ws ret) (set_output out err st1)))
             else if str_find err ''Failed to mirror the volume group'' \<noteq> - 1
             then FailJson (set_msg ''Failed to mirror rootvg'' (set_output out err st1))
             else Return () st1))"

definition msg_copy_failed :: "string list \<Rightarrow> int \<Rightarrow> string" where
  "msg_copy_failed hdisks ret =
     ''Failed to copy '' @ join '' '' hdisks @ '': return code '' @ show_int ret @ ''.''"

definition copy_cmd :: "string list \<Rightarrow> cmd" where
  "copy_cmd hdisks = [S ''alt_disk_copy'', S ''-B'', S ''-d'', S (join '' '' hdisks)]"

text \<open>
  Lines 538 to 572: the copy, the restoration of the mirroring, and the report of the
  copy.
\<close>

definition copy_and_restore ::
  "world \<Rightarrow> string list \<Rightarrow> (int \<times> string) list \<Rightarrow> state \<Rightarrow> unit outcome" where
  "copy_and_restore w hdisks copies_h st =
     (case run_command w (copy_cmd hdisks) st of ((ret_altdc, stdout_altdc, stderr_altdc), st1) \<Rightarrow>
        and_then
          (if length copies_h > 1
           then restore_mirror w copies_h (if ret_altdc = 0 then set_changed st1 else st1)
           else Return () (if ret_altdc = 0 then set_changed st1 else st1))
          (\<lambda>u st2.
             if ret_altdc \<noteq> 0
             then FailJson (set_msg (msg_copy_failed hdisks ret_altdc)
                              (set_output stdout_altdc stderr_altdc st2))
             else Return () (set_output stdout_altdc stderr_altdc st2)))"

text \<open>\<open>alt_disk_copy\<close>; \<open>hdisks\<close> is \<open>None\<close> when the caller names no target.\<close>

definition alt_disk_copy ::
  "world \<Rightarrow> string list option \<Rightarrow> policy \<Rightarrow> bool \<Rightarrow> state \<Rightarrow> unit outcome" where
  "alt_disk_copy w hdisks pol force st =
     and_then (check_rootvg w st)
       (\<lambda>rootvg_info st1.
          case rootvg_info of
            None \<Rightarrow> FailJson st1
          | Some info \<Rightarrow>
              and_then
                (find_valid_altdisk w (case hdisks of None \<Rightarrow> [] | Some l \<Rightarrow> l) info pol force st1)
                (\<lambda>hdisks1 st2.
                   if length (copy_dict info) > 1
                   then and_then
                          (suspend_mirror w force (st2\<lparr>logs := logs st2 @ [UsingDisks hdisks1]\<rparr>))
                          (\<lambda>u st3. copy_and_restore w hdisks1 (copy_dict info) st3)
                   else copy_and_restore w hdisks1 (copy_dict info)
                          (st2\<lparr>logs := logs st2 @ [UsingDisks hdisks1]\<rparr>)))"

text \<open>
  Lines 588 to 603: the disks to clean, or the message of the failure. A named disk must
  be one of the alternate volume group.
\<close>

definition clean_targets :: "(string \<times> pv) list \<Rightarrow> string list option \<Rightarrow> string + string list" where
  "clean_targets pvs hdisks =
     (case hdisks of
        Some (h # hs) \<Rightarrow>
          (case filter (\<lambda>hdisk. map_option pv_vg (map_of pvs hdisk) \<noteq> Some ''altinst_rootvg'')
                  (h # hs) of
             [] \<Rightarrow> Inr (h # hs)
           | hdisk # others \<Rightarrow>
               Inl (''Specified disk '' @ hdisk @ '' is not an alternate install rootvg''))
      | other \<Rightarrow>
          (if altinst_disks pvs = [] then Inl ''There is no alternate install rootvg''
           else Inr (altinst_disks pvs)))"

definition remove_cmd :: "string list" where
  "remove_cmd = [''/usr/sbin/alt_rootvg_op'', ''-X'', ''altinst_rootvg'']"

text \<open>\<open>alt_disk_clean\<close>\<close>

definition alt_disk_clean :: "world \<Rightarrow> string list option \<Rightarrow> state \<Rightarrow> unit outcome" where
  "alt_disk_clean w hdisks st =
     (case get_pvs w st of
        (None, st1) \<Rightarrow> FailJson st1
      | (Some pvs, st1) \<Rightarrow>
          (case clean_targets pvs hdisks of
             Inl m \<Rightarrow> FailJson (set_msg m st1)
           | Inr hdisks1 \<Rightarrow>
               (case run_command w (map S remove_cmd) (log ''Removing altinst_rootvg'' st1) of
                  ((ret, out, err), st2) \<Rightarrow>
                    if ret \<noteq> 0
                    then FailJson (set_msg (failed_msg remove_cmd ret) (set_output out err st2))
                    else and_then (clear_disks w hdisks1 (set_output out err st2))
                           (\<lambda>u st3. Return () (set_changed st3)))))"

section \<open>The entry point\<close>

datatype action = Alt_disk_copy | Alt_disk_clean

record params =
  p_action :: action
  p_targets :: "string list option"
  p_disk_size_policy :: policy
  p_force :: bool

definition init_state :: state where
  "init_state =
     \<lparr>res = \<lparr>changed = False, msg = [], stdout = [], stderr = []\<rparr>, trace = [], logs = []\<rparr>"

definition main :: "world \<Rightarrow> params \<Rightarrow> unit outcome" where
  "main w p =
     and_then
       (if p_action p = Alt_disk_copy
        then alt_disk_copy w (p_targets p) (p_disk_size_policy p) (p_force p) init_state
        else alt_disk_clean w (p_targets p) init_state)
       (\<lambda>u st. ExitJson (set_msg ''VIOS alt disk operation completed successfully'' st))"

section \<open>Observations and example hosts\<close>

text \<open>What a function returned, if it returned, and the state it ended in.\<close>

fun returned :: "'a outcome \<Rightarrow> 'a option" where
  "returned (Return x st) = Some x"
| "returned (FailJson st) = None"
| "returned (ExitJson st) = None"
| "returned (Raise e st) = None"

fun final :: "'a outcome \<Rightarrow> state" where
  "final (Return x st) = st"
| "final (FailJson st) = st"
| "final (ExitJson st) = st"
| "final (Raise e st) = st"

text \<open>The free disks of the policy example: 100, 150 and 200 megabytes.\<close>

definition disks3 :: "(string \<times> free_pv) list" where
  "disks3 =
     [(''hdisk1'', \<lparr>free_pvid = ''none'', free_size = 100\<rparr>),
      (''hdisk2'', \<lparr>free_pvid = ''none'', free_size = 150\<rparr>),
      (''hdisk3'', \<lparr>free_pvid = ''none'', free_size = 200\<rparr>)]"

text \<open>An unmirrored rootvg on \<open>hdisk0\<close> with the given total and used sizes.\<close>

definition rootvg_of :: "int \<Rightarrow> int \<Rightarrow> rootvg_info" where
  "rootvg_of tot used =
     \<lparr>status = 0, copy_dict = [(1, ''hdisk0'')], rootvg_size = tot, used_size = used\<rparr>"

text \<open>A host with rootvg on \<open>hdisk0\<close> and two free disks; any other command fails.\<close>

definition host_free :: world where
  "host_free hist c =
     (if c = map S [''/usr/ios/cli/ioscli'', ''lspv'']
      then (0, ''hdisk0 00f6 rootvg active\<newline>hdisk1 none None'', [])
      else if c = map S [''/usr/ios/cli/ioscli'', ''lspv'', ''-free'']
      then (0, ''NAME PVID SIZE(megabytes)\<newline>hdisk1 none 100\<newline>hdisk2 none 150'', [])
      else (1, [], []))"

text \<open>The sum of the capacities of the named disks, read from the free inventory.\<close>

definition capacity :: "(string \<times> free_pv) list \<Rightarrow> string list \<Rightarrow> int" where
  "capacity pvs hdisks =
     sum_list (map (\<lambda>h. case map_of pvs h of None \<Rightarrow> 0 | Some p \<Rightarrow> free_size p) hdisks)"

text \<open>A free inventory of one disk, \<open>hdiskX\<close>, of the given size.\<close>

definition one_disk :: "int \<Rightarrow> (string \<times> free_pv) list" where
  "one_disk n = [(''hdiskX'', \<lparr>free_pvid = ''none'', free_size = n\<rparr>)]"

text \<open>The command that clears the owner of one disk, and the exit code of a trace entry.\<close>

definition chpv_cmd :: "string \<Rightarrow> cmd" where
  "chpv_cmd hdisk = map S [''/usr/sbin/chpv'', ''-C'', hdisk]"

definition ret_of :: "cmd \<times> reply \<Rightarrow> int" where
  "ret_of cr = fst (snd cr)"

text \<open>The commands an operation ran, after those of the state it started from.\<close>

definition ran_since :: "state \<Rightarrow> state \<Rightarrow> (cmd \<times> reply) list" where
  "ran_since st0 st = drop (length (trace st0)) (trace st)"

text \<open>
  A host where \<open>hdisk1\<close> holds the alternate volume group: removing the group succeeds,
  clearing the owner of the disk fails.
\<close>

definition host_clear_fails :: world where
  "host_clear_fails hist c =
     (if c = map S [''/usr/ios/cli/ioscli'', ''lspv'']
      then (0, ''hdisk0 00f6 rootvg active\<newline>hdisk1 00f7 altinst_rootvg'', [])
      else if c = map S remove_cmd then (0, ''removed'', [])
      else (1, [], ''chpv failed''))"

text \<open>The state in which the clean operation ends on that host.\<close>

definition clear_fails_final :: state where
  "clear_fails_final =
     \<lparr>res = \<lparr>changed = False,
             msg = ''Command '' @ [CHR 0x27] @ ''/usr/sbin/chpv -C hdisk1'' @ [CHR 0x27] @
                   '' failed with return code 1.'',
             stdout = [], stderr = ''chpv failed''\<rparr>,
      trace = [(map S [''/usr/ios/cli/ioscli'', ''lspv''],
                 (0, ''hdisk0 00f6 rootvg active\<newline>hdisk1 00f7 altinst_rootvg'', [])),
               (map S remove_cmd, (0, ''removed'', [])),
               (chpv_cmd ''hdisk1'', (1, [], ''chpv failed''))],
      logs = [Msg ''Removing altinst_rootvg'', Msg ''Clearing the owning VG from disk hdisk1'']\<rparr>"

text \<open>The three queries of \<open>check_rootvg\<close>.\<close>

definition lsvg_map_cmd :: cmd where
  "lsvg_map_cmd = map S [''/usr/sbin/lsvg'', ''-M'', ''rootvg'']"

definition lsvg_pv_cmd :: cmd where
  "lsvg_pv_cmd = map S [''/usr/sbin/lsvg'', ''-p'', ''rootvg'']"

definition lsvg_cmd :: cmd where
  "lsvg_cmd = map S [''/usr/sbin/lsvg'', ''rootvg'']"

text \<open>
  A host that answers the three queries with the given texts and exit code 0, and fails
  every other command.
\<close>

definition rootvg_host :: "string \<Rightarrow> string \<Rightarrow> string \<Rightarrow> world" where
  "rootvg_host map_out pv_out summary_out hist c =
     (if c = lsvg_map_cmd then (0, map_out, [])
      else if c = lsvg_pv_cmd then (0, pv_out, [])
      else if c = lsvg_cmd then (0, summary_out, [])
      else (1, [], []))"

text \<open>A summary of rootvg with both sizes, and one without the line of the total.\<close>

definition summary_full :: string where
  "summary_full =
     ''VOLUME GROUP: rootvg VG IDENTIFIER: 00f6\<newline>'' @
     ''VG STATE: active PP SIZE: 256 megabyte(s)\<newline>'' @
     ''VG PERMISSION: read/write TOTAL PPs: 558 (142848 megabytes)''"

definition summary_no_total :: string where
  "summary_no_total =
     ''VOLUME GROUP: rootvg VG IDENTIFIER: 00f6\<newline>'' @
     ''VG STATE: active PP SIZE: 256 megabyte(s)''"

text \<open>A map whose text starts with the word \<open>stale\<close>.\<close>

definition host_stale :: world where
  "host_stale = rootvg_host ''stale\<newline>hdisk0:1 hd5:1'' [] summary_full"

text \<open>An unmirrored rootvg whose summary lacks the total size.\<close>

definition host_no_total :: world where
  "host_no_total = rootvg_host ''hdisk0:1 hd5:1\<newline>hdisk0:2 hd5:2'' [] summary_no_total"

text \<open>A map whose only copy number is 2.\<close>

definition host_copy2 :: world where
  "host_copy2 = rootvg_host ''hdisk0:1 hd5:1:2'' [] summary_full"

text \<open>
  The lines of the map, read declaratively: the pairs of disk and copy number of the
  lines of one of the two accepted shapes, in the order of the text.
\<close>

definition map_pairs :: "string list \<Rightarrow> (string \<times> int) list" where
  "map_pairs lines = List.map_filter (\<lambda>line. parse_map_line (rstrip line)) lines"

text \<open>
  What the loop over the map maintains, for the pairs \<open>ps\<close> read so far: \<open>hdict\<close> holds
  exactly the pairs read, one per disk; \<open>cdict\<close> binds every copy number read to one disk
  it was read with, and no disk twice; \<open>nb_lp\<close> counts the lines of copy 1.
\<close>

definition map_inv ::
  "(string \<times> int) list \<Rightarrow> int \<times> (string \<times> int) list \<times> (int \<times> string) list \<Rightarrow> bool" where
  "map_inv ps acc =
     (case acc of (nb_lp, hdict, cdict) \<Rightarrow>
        distinct (map fst hdict) \<and> set hdict = set ps \<and>
        distinct (map fst cdict) \<and> distinct (map snd cdict) \<and>
        set cdict \<subseteq> prod.swap ` set ps \<and> fst ` set cdict = snd ` set ps \<and>
        nb_lp = int (length (filter (\<lambda>p. snd p = 1) ps)))"

text \<open>The texts the host returns to the three queries of an inspection started in \<open>st\<close>.\<close>

definition map_text :: "world \<Rightarrow> state \<Rightarrow> string" where
  "map_text w st = fst (snd (w (map fst (trace st)) lsvg_map_cmd))"

definition pv_text :: "world \<Rightarrow> state \<Rightarrow> string" where
  "pv_text w st = fst (snd (w (map fst (trace st) @ [lsvg_map_cmd]) lsvg_pv_cmd))"

definition summary_text :: "world \<Rightarrow> state \<Rightarrow> bool \<Rightarrow> string" where
  "summary_text w st mirrored =
     fst (snd (w (map fst (trace st) @
                  (if mirrored then [lsvg_map_cmd, lsvg_pv_cmd] else [lsvg_map_cmd]))
               lsvg_cmd))"

text \<open>
  The rows of the per-disk listing, read declaratively: disk name and total number of
  partitions of every line of the accepted shape.
\<close>

definition pv_rows :: "string list \<Rightarrow> (string \<times> int) list" where
  "pv_rows lines =
     List.map_filter
       (\<lambda>line. case re_match lsvg_p_rx (rstrip line) of
                 None \<Rightarrow> None
               | Some gs \<Rightarrow> Some (group gs 1, int_of_digits (group gs 2)))
       lines"

text \<open>
  The sizes of the summary, read declaratively: the totals of the lines with a total
  size, and the partition sizes of the other lines with a partition size.
\<close>

definition summary_totals :: "string list \<Rightarrow> int list" where
  "summary_totals lines =
     List.map_filter
       (\<lambda>line. map_option (\<lambda>gs. int_of_digits (group gs 1)) (re_match total_rx (rstrip line)))
       lines"

definition summary_pps :: "string list \<Rightarrow> int list" where
  "summary_pps lines =
     List.map_filter
       (\<lambda>line. if re_match total_rx (rstrip line) = None
               then map_option (\<lambda>gs. int_of_digits (group gs 1)) (re_match pp_rx (rstrip line))
               else None)
       lines"

text \<open>The facts an inspection started in \<open>st\<close> reads from the host.\<close>

definition seen_pairs :: "world \<Rightarrow> state \<Rightarrow> (string \<times> int) list" where
  "seen_pairs w st = map_pairs (split_nl (map_text w st))"

definition is_mirrored :: "world \<Rightarrow> state \<Rightarrow> bool" where
  "is_mirrored w st = (length (remdups (map snd (seen_pairs w st))) > 1)"

definition nb_copy1 :: "world \<Rightarrow> state \<Rightarrow> int" where
  "nb_copy1 w st = int (length (filter (\<lambda>p. snd p = 1) (seen_pairs w st)))"

definition pv_counts :: "world \<Rightarrow> state \<Rightarrow> (string \<times> int) list" where
  "pv_counts w st = pv_rows (split_nl (pv_text w st))"

definition pp_sizes :: "world \<Rightarrow> state \<Rightarrow> int list" where
  "pp_sizes w st = summary_pps (split_nl (summary_text w st (is_mirrored w st)))"

definition total_sizes :: "world \<Rightarrow> state \<Rightarrow> int list" where
  "total_sizes w st = summary_totals (split_nl (summary_text w st (is_mirrored w st)))"

text \<open>A rootvg mirrored on \<open>hdisk4\<close> (copy 1) and \<open>hdisk8\<close> (copy 2), and an unmirrored one.\<close>

definition pv_listing :: string where
  "pv_listing =
     ''rootvg:\<newline>'' @
     ''PV_NAME PV STATE TOTAL PPs FREE PPs FREE DISTRIBUTION\<newline>'' @
     ''hdisk4 active 639 254 126..00..00..00..128\<newline>'' @
     ''hdisk8 active 640 255 126..00..00..00..129''"

definition host_mirrored :: world where
  "host_mirrored =
     rootvg_host ''hdisk4:257 hd10opt:1:1\<newline>hdisk4:258 hd10opt:2:1\<newline>hdisk4:512-639\<newline>hdisk8:257 hd10opt:1:2\<newline>hdisk8:258 hd10opt:2:2''
       pv_listing summary_full"

definition host_plain :: world where
  "host_plain = rootvg_host ''hdisk0:1 hd5:1\<newline>hdisk0:2 hd5:2'' [] summary_full"

text \<open>What the inspection returns on these two hosts.\<close>

definition mirrored_info :: rootvg_info where
  "mirrored_info =
     \<lparr>status = 0, copy_dict = [(1, ''hdisk4''), (2, ''hdisk8'')], rootvg_size = 163584,
      used_size = 768\<rparr>"

definition plain_info :: rootvg_info where
  "plain_info =
     \<lparr>status = 0, copy_dict = [(1, ''hdisk0'')], rootvg_size = 142848, used_size = 768\<rparr>"

text \<open>
  The replies of the host to the copy command run in state \<open>st\<close> and to the command
  \<open>c\<close> run right after it.
\<close>

definition copy_reply :: "world \<Rightarrow> state \<Rightarrow> string list \<Rightarrow> reply" where
  "copy_reply w st hdisks = w (map fst (trace st)) (copy_cmd hdisks)"

definition mirror_reply :: "world \<Rightarrow> state \<Rightarrow> string list \<Rightarrow> cmd \<Rightarrow> reply" where
  "mirror_reply w st hdisks c = w (map fst (trace st) @ [copy_cmd hdisks]) c"

text \<open>
  The restoration failed: a non-zero exit code, or the failure marker on its standard
  error.
\<close>

definition restore_failed :: "reply \<Rightarrow> bool" where
  "restore_failed r =
     (fst r \<noteq> 0 \<or> str_find (snd (snd r)) ''Failed to mirror the volume group'' \<noteq> - 1)"

text \<open>The invocation ended by \<open>fail_json\<close> or by an exception; the exception, if any.\<close>

fun fatal :: "'a outcome \<Rightarrow> bool" where
  "fatal (Return x st) = False"
| "fatal (FailJson st) = True"
| "fatal (ExitJson st) = False"
| "fatal (Raise e st) = True"

fun raised :: "'a outcome \<Rightarrow> exn option" where
  "raised (Return x st) = None"
| "raised (FailJson st) = None"
| "raised (ExitJson st) = None"
| "raised (Raise e st) = Some e"

text \<open>
  A host whose rootvg has copies 1 and 3 on \<open>hdisk4\<close> and \<open>hdisk8\<close> and a free disk
  \<open>hdisk1\<close>; stopping the mirror succeeds, and so does every other command.
\<close>

definition host_gap :: world where
  "host_gap hist c =
     (if c = lsvg_map_cmd
      then (0, ''hdisk4:257 hd10opt:1:1\<newline>hdisk8:257 hd10opt:1:3'', [])
      else if c = lsvg_pv_cmd then (0, pv_listing, [])
      else if c = lsvg_cmd then (0, summary_full, [])
      else if c = map S [''/usr/ios/cli/ioscli'', ''lspv'']
      then (0, ''hdisk4 00f6 rootvg active\<newline>hdisk8 00f7 rootvg active\<newline>hdisk1 none None'', [])
      else if c = map S [''/usr/ios/cli/ioscli'', ''lspv'', ''-free'']
      then (0, ''hdisk1 none 200000'', [])
      else if c = map S [''/usr/sbin/unmirrorvg'', ''rootvg'']
      then (0, [], ''0516-1246 rmlvcopy: rootvg successfully unmirrored'')
      else (0, [], []))"

definition copy_forced :: params where
  "copy_forced =
     \<lparr>p_action = Alt_disk_copy, p_targets = None, p_disk_size_policy = Nearest, p_force = True\<rparr>"

text \<open>A host where the copy command fails with exit code 1 and every other command succeeds.\<close>

definition host_copy_fails :: world where
  "host_copy_fails hist c =
     (if c = copy_cmd [''hdisk1''] then (1, ''copying'', ''copy failed'') else (0, [], []))"

text \<open>A host where the copy command succeeds and the restoration prints its failure marker.\<close>

definition host_mirror_fails :: world where
  "host_mirror_fails hist c =
     (if c = copy_cmd [''hdisk1''] then (0, ''copied'', [])
      else (0, ''mirroring'', ''0516-1804 Failed to mirror the volume group''))"

definition two_copies :: "(int \<times> string) list" where
  "two_copies = [(1, ''hdisk4''), (2, ''hdisk8'')]"

definition mirror_two :: cmd where
  "mirror_two = [S ''/usr/sbin/mirrorvg'', S ''-m'', S ''-c'', I 2, S ''rootvg'', S ''hdisk8'']"

text \<open>
  A host where \<open>hdisk1\<close> and \<open>hdisk2\<close> hold the alternate volume group and every
  command succeeds, with the dictionary \<open>get_pvs\<close> reads there.
\<close>

definition host_clean_ok :: world where
  "host_clean_ok hist c =
     (if c = map S [''/usr/ios/cli/ioscli'', ''lspv'']
      then (0, ''hdisk0 00f6 rootvg active\<newline>hdisk1 00f7 altinst_rootvg\<newline>hdisk2 00f8 altinst_rootvg'', [])
      else (0, [], []))"

definition altinst_pvs :: "(string \<times> pv) list" where
  "altinst_pvs =
     [(''hdisk0'', \<lparr>pv_pvid = ''00f6'', pv_vg = ''rootvg'', pv_status = ''active''\<rparr>),
      (''hdisk1'', \<lparr>pv_pvid = ''00f7'', pv_vg = ''altinst_rootvg'', pv_status = []\<rparr>),
      (''hdisk2'', \<lparr>pv_pvid = ''00f8'', pv_vg = ''altinst_rootvg'', pv_status = []\<rparr>)]"

text \<open>
  The mirrored rootvg of \<open>host_mirrored\<close> with a per-disk listing that has a row for
  \<open>hdisk8\<close>, the disk of copy 2, and none for \<open>hdisk4\<close>, the disk of copy 1.
\<close>

definition host_unlisted :: world where
  "host_unlisted =
     rootvg_host ''hdisk4:257 hd10opt:1:1\<newline>hdisk4:258 hd10opt:2:1\<newline>hdisk4:512-639\<newline>hdisk8:257 hd10opt:1:2\<newline>hdisk8:258 hd10opt:2:2''
       (''rootvg:\<newline>'' @
        ''PV_NAME PV STATE TOTAL PPs FREE PPs FREE DISTRIBUTION\<newline>'' @
        ''hdisk8 active 640 255 126..00..00..00..129'')
       summary_full"

text \<open>A host where the copy command succeeds and the restoration exits with code 1.\<close>

definition host_mirror_exit1 :: world where
  "host_mirror_exit1 hist c =
     (if c = copy_cmd [''hdisk1''] then (0, ''copied'', []) else (1, [], ''mirrorvg failed''))"

section \<open>Verified properties\<close>

subsection \<open>Automatic selection\<close>

lemma auto_loop_all_small:
  "\<forall>kv \<in> set ds. free_size (snd kv) < u \<Longrightarrow> auto_loop pol u t ds prev pd = ([], prev)"
  by (induction ds) auto

lemma auto_loop_keys:
  "auto_loop pol u t ds prev pd = (sel, prev') \<Longrightarrow>
    (sel = [] \<or> sel \<in> fst ` set ds \<or> sel = prev) \<and> (prev' = prev \<or> prev' \<in> fst ` set ds)"
proof (induction ds arbitrary: prev pd)
  case Nil
  then show ?case by simp
next
  case (Cons kv ds)
  obtain k p where kv: "kv = (k, p)" by (cases kv)
  show ?case
  proof (cases "free_size p < u")
    case True
    with Cons.prems kv have "auto_loop pol u t ds prev pd = (sel, prev')" by simp
    from Cons.IH [OF this] show ?thesis by auto
  next
    case False
    show ?thesis
    proof (cases "pol \<noteq> Minimize \<and> free_size p - t < 0")
      case True
      with False Cons.prems kv have "auto_loop pol u t ds k (free_size p - t) = (sel, prev')"
        by (simp add: Let_def split: if_splits)
      from Cons.IH [OF this] show ?thesis using kv by auto
    next
      case stop: False
      with False Cons.prems kv show ?thesis
        by (auto simp: Let_def split: if_splits)
    qed
  qed
qed

lemma select_altdisk_auto_one:
  "select_altdisk pvs [] info pol st = Return ds st' \<Longrightarrow>
     \<exists>d \<in> fst ` set pvs. ds = [d] \<and> st' = st"
  apply (simp add: select_altdisk_def auto_select_def split: if_splits prod.splits)
   apply (drule auto_loop_keys; force)+
  done

lemma select_from_free_auto_one:
  "select_from_free w [] info pol st = Return ds st' \<Longrightarrow> length ds = 1"
  by (auto simp: select_from_free_def split: outcome.splits option.splits
      dest!: select_altdisk_auto_one)

lemma returned_Some: "returned out = Some x \<Longrightarrow> \<exists>st. out = Return x st"
  by (cases out) auto

text \<open>
  Claim C3, as the source decides it. Free disks of 100, 150 and 200 megabytes and a
  used size of 90: with a rootvg of 150 megabytes \<open>minimize\<close> takes \<open>hdisk1\<close> and every
  other policy takes \<open>hdisk2\<close>, whose size matches; with a rootvg of 140 megabytes
  \<open>upper\<close> takes \<open>hdisk2\<close>, the first disk bigger than rootvg, \<open>lower\<close> takes
  \<open>hdisk1\<close>, the last disk smaller than rootvg, and \<open>nearest\<close> takes \<open>hdisk2\<close>,
  10 megabytes away against the 40 of \<open>hdisk1\<close>.
\<close>

theorem policy_example_selection:
  "select_altdisk disks3 [] (rootvg_of 150 90) Minimize st = Return [''hdisk1''] st \<and>
   select_altdisk disks3 [] (rootvg_of 150 90) Upper st = Return [''hdisk2''] st \<and>
   select_altdisk disks3 [] (rootvg_of 150 90) Lower st = Return [''hdisk2''] st \<and>
   select_altdisk disks3 [] (rootvg_of 150 90) Nearest st = Return [''hdisk2''] st \<and>
   select_altdisk disks3 [] (rootvg_of 140 90) Upper st = Return [''hdisk2''] st \<and>
   select_altdisk disks3 [] (rootvg_of 140 90) Lower st = Return [''hdisk1''] st \<and>
   select_altdisk disks3 [] (rootvg_of 140 90) Nearest st = Return [''hdisk2''] st"
  by (simp add: select_altdisk_def auto_select_def disks3_def rootvg_of_def)

text \<open>
  Claim C3 as the specification words it fails: with a rootvg of 140 megabytes \<open>upper\<close>
  does not select \<open>hdisk3\<close> and \<open>lower\<close> does not select \<open>hdisk2\<close>.
\<close>

theorem policy_example_upper_lower_refuted:
  "select_altdisk disks3 [] (rootvg_of 140 90) Upper init_state \<noteq> Return [''hdisk3''] init_state \<and>
   select_altdisk disks3 [] (rootvg_of 140 90) Lower init_state \<noteq> Return [''hdisk2''] init_state"
  by (simp add: select_altdisk_def auto_select_def disks3_def rootvg_of_def)

text \<open>
  Claim C8. When every free disk is smaller than the used size of rootvg, automatic
  selection ends in \<open>fail_json\<close> and returns no disk: with the message
  \<open>No free disk available\<close> for an empty inventory, and otherwise with
  \<open>No available alternate disk with size greater than N MB found\<close>, \<open>N\<close> the size of
  rootvg.
\<close>

theorem auto_select_no_candidate:
  assumes "\<forall>kv \<in> set pvs. free_size (snd kv) < used_size info"
  shows "select_altdisk pvs [] info pol st =
           FailJson (set_msg (if pvs = [] then ''No free disk available''
                              else ''No available alternate disk with size greater than '' @
                                   show_int (rootvg_size info) @ '' MB found'') st)"
  using assms by (simp add: select_altdisk_def auto_select_def auto_loop_all_small)

theorem auto_select_no_candidate_witness:
  "select_altdisk [(''hdisk1'', \<lparr>free_pvid = ''none'', free_size = 80\<rparr>)] []
     (rootvg_of 150 90) Nearest init_state =
   FailJson (set_msg ''No available alternate disk with size greater than 150 MB found''
     init_state)"
  using auto_select_no_candidate
    [of "[(''hdisk1'', \<lparr>free_pvid = ''none'', free_size = 80\<rparr>)]" "rootvg_of 150 90"
        Nearest init_state]
  by (simp add: rootvg_of_def show_int_def)

text \<open>
  Claim C9. With no target named by the caller, a call of \<open>find_valid_altdisk\<close> that
  returns has put exactly one disk in the list of targets, whatever the free inventory,
  the policy and the number of disks of rootvg.
\<close>

theorem find_valid_altdisk_auto_one_disk:
  assumes "find_valid_altdisk w [] info pol force st = Return ds st'"
  shows "length ds = 1"
proof -
  from assms obtain st1 where "select_from_free w [] info pol st1 = Return ds st'"
    unfolding find_valid_altdisk_def
    by (simp add: Let_def split: if_splits prod.splits option.splits list.splits outcome.splits)
  then show ?thesis by (rule select_from_free_auto_one)
qed

theorem find_valid_altdisk_auto_one_disk_witness:
  "returned (find_valid_altdisk host_free [] (rootvg_of 150 90) Nearest False init_state) =
     Some [''hdisk2''] \<and> length [''hdisk2''] = 1"
proof -
  have r: "returned (find_valid_altdisk host_free [] (rootvg_of 150 90) Nearest False init_state) =
             Some [''hdisk2'']"
    by code_simp
  from returned_Some [OF r] obtain st' where
    e: "find_valid_altdisk host_free [] (rootvg_of 150 90) Nearest False init_state =
          Return [''hdisk2''] st'" ..
  have "length [''hdisk2''] = 1" by (rule find_valid_altdisk_auto_one_disk [OF e])
  with r show ?thesis ..
qed

subsection \<open>Targets named by the caller\<close>

lemma sum_sizes_present:
  "set hdisks \<subseteq> fst ` set pvs \<Longrightarrow>
     sum_sizes pvs hdisks acc = Inr (acc + capacity pvs hdisks)"
proof (induction hdisks arbitrary: acc)
  case Nil
  then show ?case by (simp add: capacity_def)
next
  case (Cons h hdisks)
  then obtain p where "map_of pvs h = Some p"
    by (cases "map_of pvs h") (auto simp: map_of_eq_None_iff)
  with Cons show ?case by (simp add: capacity_def)
qed

text \<open>
  Claim C7, as the source decides it. The caller names at least one disk and every named
  disk is free. The capacity test is entered only when the sum of their capacities is
  below the total size of rootvg: there, a sum below the used size fails with
  \<open>Alternate disks too small\<close>, and a sum of at least the used size succeeds with the
  warning logged. A sum of at least the total size succeeds with no warning, whatever the
  used size.
\<close>

theorem named_disks_capacity:
  assumes "hdisks \<noteq> []" and "set hdisks \<subseteq> fst ` set pvs"
  shows "(capacity pvs hdisks < rootvg_size info \<and> capacity pvs hdisks < used_size info \<longrightarrow>
            select_altdisk pvs hdisks info pol st =
              FailJson (set_msg (msg_too_small (capacity pvs hdisks) (rootvg_size info)) st)) \<and>
         (used_size info \<le> capacity pvs hdisks \<and> capacity pvs hdisks < rootvg_size info \<longrightarrow>
            select_altdisk pvs hdisks info pol st = Return hdisks (log msg_smaller st)) \<and>
         (rootvg_size info \<le> capacity pvs hdisks \<longrightarrow>
            select_altdisk pvs hdisks info pol st = Return hdisks st)"
proof -
  from assms have "pvs \<noteq> []" by auto
  with assms show ?thesis
    by (simp add: select_altdisk_def check_targets_def sum_sizes_present)
qed

theorem named_disks_capacity_witness:
  "select_altdisk (one_disk 80) [''hdiskX''] (rootvg_of 150 90) Nearest init_state =
     FailJson (set_msg ''Alternate disks too small (80 < 150).'' init_state) \<and>
   select_altdisk (one_disk 120) [''hdiskX''] (rootvg_of 150 90) Nearest init_state =
     Return [''hdiskX''] (log msg_smaller init_state)"
  using named_disks_capacity [of "[''hdiskX'']" "one_disk 80" "rootvg_of 150 90" Nearest init_state]
    named_disks_capacity [of "[''hdiskX'']" "one_disk 120" "rootvg_of 150 90" Nearest init_state]
  by (simp add: one_disk_def capacity_def rootvg_of_def msg_too_small_def show_int_def)

text \<open>
  Claim C7 as the specification words it fails when the used size exceeds the total size
  (a full rootvg: the used size counts one partition more than the logical partitions):
  a named disk of 80 megabytes, below the used size of 90, is accepted for a rootvg of
  80 megabytes, with neither failure nor warning.
\<close>

theorem named_disks_below_used_accepted:
  "capacity (one_disk 80) [''hdiskX''] < used_size (rootvg_of 80 90) \<and>
   select_altdisk (one_disk 80) [''hdiskX''] (rootvg_of 80 90) Nearest init_state =
     Return [''hdiskX''] init_state"
  by (simp add: one_disk_def capacity_def rootvg_of_def select_altdisk_def check_targets_def)

subsection \<open>The state through the commands\<close>

lemma set_msg_simps [simp]:
  "trace (set_msg m st) = trace st" "logs (set_msg m st) = logs st"
  "changed (res (set_msg m st)) = changed (res st)" "msg (res (set_msg m st)) = m"
  "stdout (res (set_msg m st)) = stdout (res st)" "stderr (res (set_msg m st)) = stderr (res st)"
  by (simp_all add: set_msg_def)

lemma set_output_simps [simp]:
  "trace (set_output out err st) = trace st" "logs (set_output out err st) = logs st"
  "changed (res (set_output out err st)) = changed (res st)"
  "msg (res (set_output out err st)) = msg (res st)"
  "stdout (res (set_output out err st)) = out" "stderr (res (set_output out err st)) = err"
  by (simp_all add: set_output_def)

lemma set_changed_simps [simp]:
  "trace (set_changed st) = trace st" "logs (set_changed st) = logs st"
  "changed (res (set_changed st))"
  "msg (res (set_changed st)) = msg (res st)"
  "stdout (res (set_changed st)) = stdout (res st)" "stderr (res (set_changed st)) = stderr (res st)"
  by (simp_all add: set_changed_def)

lemma log_simps [simp]:
  "trace (log m st) = trace st" "res (log m st) = res st" "logs (log m st) = logs st @ [Msg m]"
  by (simp_all add: log_def)

lemma run_command_effect:
  "run_command w c st = (r, st1) \<Longrightarrow>
     trace st1 = trace st @ [(c, r)] \<and> res st1 = res st \<and> logs st1 = logs st \<and>
     r = w (map fst (trace st)) c"
  by (auto simp: run_command_def Let_def)

lemma clear_disks_step:
  assumes "run_command w (chpv_cmd d) (log (''Clearing the owning VG from disk '' @ d) st) =
             ((ret, out, err), st1)"
  shows "clear_disks w (d # ds) st =
           (if ret \<noteq> 0
            then FailJson (set_msg (failed_msg [''/usr/sbin/chpv'', ''-C'', d] ret)
                             (set_output out err st1))
            else clear_disks w ds st1)"
  using assms unfolding chpv_cmd_def by (simp del: append.simps)


lemma clear_disks_outcome:
  "(\<exists>st' rs. clear_disks w ds st = Return () st' \<and> changed (res st') = changed (res st) \<and>
      trace st' = trace st @ rs \<and> map fst rs = map chpv_cmd ds \<and>
      list_all (\<lambda>cr. ret_of cr = 0) rs) \<or>
   (\<exists>st' rs. clear_disks w ds st = FailJson st' \<and> changed (res st') = changed (res st) \<and>
      trace st' = trace st @ rs \<and> \<not> list_all (\<lambda>cr. ret_of cr = 0) rs)"
proof (induction ds arbitrary: st)
  case Nil
  show ?case by simp
next
  case (Cons d ds)
  let ?st = "log (''Clearing the owning VG from disk '' @ d) st"
  obtain ret out err st1 where rc: "run_command w (chpv_cmd d) ?st = ((ret, out, err), st1)"
    by (metis prod.exhaust)
  note step = clear_disks_step [OF rc, of ds]
  from run_command_effect [OF rc]
  have t1: "trace st1 = trace st @ [(chpv_cmd d, (ret, out, err))]"
    and c1: "changed (res st1) = changed (res st)" by simp_all
  show ?case
  proof (cases "ret = 0")
    case False
    let ?st' = "set_msg (failed_msg [''/usr/sbin/chpv'', ''-C'', d] ret) (set_output out err st1)"
    let ?rs = "[(chpv_cmd d, (ret, out, err))]"
    have f1: "clear_disks w (d # ds) st = FailJson ?st'" using step False by simp
    have f2: "changed (res ?st') = changed (res st)" using c1 by simp
    have f3: "trace ?st' = trace st @ ?rs" using t1 by simp
    have f4: "\<not> list_all (\<lambda>cr. ret_of cr = 0) ?rs" using False by (simp add: ret_of_def)
    from f1 f2 f3 f4 show ?thesis by blast
  next
    case True
    with step have e: "clear_disks w (d # ds) st = clear_disks w ds st1" by simp
    from Cons.IH [of st1] show ?thesis
    proof (elim disjE exE conjE)
      fix st' rs
      assume a: "clear_disks w ds st1 = Return () st'" "changed (res st') = changed (res st1)"
        "trace st' = trace st1 @ rs" "map fst rs = map chpv_cmd ds"
        "list_all (\<lambda>cr. ret_of cr = 0) rs"
      let ?rs = "(chpv_cmd d, (ret, out, err)) # rs"
      have r1: "trace st' = trace st @ ?rs" using a(3) t1 by simp
      have r2: "map fst ?rs = map chpv_cmd (d # ds)" using a(4) by simp
      have r3: "list_all (\<lambda>cr. ret_of cr = 0) ?rs" using a(5) True by (simp add: ret_of_def)
      have r4: "clear_disks w (d # ds) st = Return () st'" using e a(1) by simp
      have r5: "changed (res st') = changed (res st)" using a(2) c1 by simp
      from r4 r5 r1 r2 r3 show ?thesis by blast
    next
      fix st' rs
      assume a: "clear_disks w ds st1 = FailJson st'" "changed (res st') = changed (res st1)"
        "trace st' = trace st1 @ rs" "\<not> list_all (\<lambda>cr. ret_of cr = 0) rs"
      let ?rs = "(chpv_cmd d, (ret, out, err)) # rs"
      have r1: "trace st' = trace st @ ?rs" using a(3) t1 by simp
      have r3: "\<not> list_all (\<lambda>cr. ret_of cr = 0) ?rs" using a(4) by simp
      have r4: "clear_disks w (d # ds) st = FailJson st'" using e a(1) by simp
      have r5: "changed (res st') = changed (res st)" using a(2) c1 by simp
      from r4 r5 r1 r3 show ?thesis by blast
    qed
  qed
qed

lemma get_pvs_effect:
  assumes "get_pvs w st = (r, st1)"
  shows "changed (res st1) = changed (res st) \<and>
     (\<exists>rep. trace st1 = trace st @ [(map S [''/usr/ios/cli/ioscli'', ''lspv''], rep)] \<and>
            (r \<noteq> None \<longrightarrow> fst rep = 0))"
proof -
  obtain ret out err st0 where
    rc: "run_command w (map S [''/usr/ios/cli/ioscli'', ''lspv'']) st = ((ret, out, err), st0)"
    by (metis prod.exhaust)
  from run_command_effect [OF rc]
  have t: "trace st0 = trace st @ [(map S [''/usr/ios/cli/ioscli'', ''lspv''], (ret, out, err))]"
    and c: "changed (res st0) = changed (res st)" by simp_all
  from assms rc have "(r, st1) =
      (if ret \<noteq> 0
       then (None, set_msg (failed_msg [''/usr/ios/cli/ioscli'', ''lspv''] ret) (set_output out err st0))
       else (Some (foldl lspv_line [] (split_nl out)), st0))"
    unfolding get_pvs_def by (simp del: append.simps)
  with t c show ?thesis by (cases "ret = 0") auto
qed


lemma alt_disk_clean_no_targets:
  assumes "\<not> changed (res st0)"
    and "fst (get_pvs w st0) = None \<or>
         (\<exists>pvs m. fst (get_pvs w st0) = Some pvs \<and> clean_targets pvs hdisks = Inl m)"
  shows "\<exists>st. alt_disk_clean w hdisks st0 = FailJson st \<and> \<not> changed (res st)"
proof -
  obtain r st1 where g: "get_pvs w st0 = (r, st1)" by (cases "get_pvs w st0")
  from get_pvs_effect [OF g] assms(1) have c1: "\<not> changed (res st1)" by simp
  from assms(2) g show ?thesis
  proof (elim disjE exE conjE)
    assume "fst (get_pvs w st0) = None"
    with g c1 show ?thesis by (simp add: alt_disk_clean_def)
  next
    fix pvs m
    assume "fst (get_pvs w st0) = Some pvs" "clean_targets pvs hdisks = Inl m"
    with g c1 show ?thesis by (simp add: alt_disk_clean_def)
  qed
qed

lemma alt_disk_clean_targets:
  assumes nc: "\<not> changed (res st0)"
    and pv: "fst (get_pvs w st0) = Some pvs"
    and tg: "clean_targets pvs hdisks = Inr ds"
  shows "((\<exists>st. alt_disk_clean w hdisks st0 = Return () st \<and> changed (res st)) \<or>
          (\<exists>st. alt_disk_clean w hdisks st0 = FailJson st \<and> \<not> changed (res st))) \<and>
         (changed (res (final (alt_disk_clean w hdisks st0))) =
            (map fst (ran_since st0 (final (alt_disk_clean w hdisks st0))) =
               map S [''/usr/ios/cli/ioscli'', ''lspv''] # map S remove_cmd # map chpv_cmd ds \<and>
             list_all (\<lambda>cr. ret_of cr = 0) (ran_since st0 (final (alt_disk_clean w hdisks st0)))))"
proof -
  obtain r st1 where g0: "get_pvs w st0 = (r, st1)" by (cases "get_pvs w st0")
  with pv have g: "get_pvs w st0 = (Some pvs, st1)" by simp
  from get_pvs_effect [OF g] nc obtain rep where
    c1: "\<not> changed (res st1)" and
    t1: "trace st1 = trace st0 @ [(map S [''/usr/ios/cli/ioscli'', ''lspv''], rep)]" and
    ok1: "fst rep = 0" by auto
  let ?st = "log ''Removing altinst_rootvg'' st1"
  obtain ret out err st2 where
    rc: "run_command w (map S remove_cmd) ?st = ((ret, out, err), st2)"
    by (metis prod.exhaust)
  from run_command_effect [OF rc] c1
  have c2: "\<not> changed (res st2)"
    and t2: "trace st2 = trace st1 @ [(map S remove_cmd, (ret, out, err))]"
    by simp_all
  have e: "alt_disk_clean w hdisks st0 =
             (if ret \<noteq> 0
              then FailJson (set_msg (failed_msg remove_cmd ret) (set_output out err st2))
              else and_then (clear_disks w ds (set_output out err st2))
                     (\<lambda>u st3. Return () (set_changed st3)))"
    using g tg rc by (simp add: alt_disk_clean_def)
  show ?thesis
  proof (cases "ret = 0")
    case False
    let ?f = "set_msg (failed_msg remove_cmd ret) (set_output out err st2)"
    have o: "alt_disk_clean w hdisks st0 = FailJson ?f" using e False by simp
    have nf: "\<not> changed (res ?f)" using c2 by simp
    have tr: "ran_since st0 ?f =
                [(map S [''/usr/ios/cli/ioscli'', ''lspv''], rep),
                 (map S remove_cmd, (ret, out, err))]"
      using t1 t2 by (simp add: ran_since_def)
    have nl: "\<not> list_all (\<lambda>cr. ret_of cr = 0) (ran_since st0 ?f)"
      unfolding tr using False by (simp add: ret_of_def)
    from o nf nl show ?thesis by simp
  next
    case True
    let ?st3 = "set_output out err st2"
    from clear_disks_outcome [of w ds ?st3] show ?thesis
    proof (elim disjE exE conjE)
      fix st' rs
      assume cd: "clear_disks w ds ?st3 = Return () st'"
        and rs: "trace st' = trace ?st3 @ rs" "map fst rs = map chpv_cmd ds"
            "list_all (\<lambda>cr. ret_of cr = 0) rs"
      have o: "alt_disk_clean w hdisks st0 = Return () (set_changed st')"
        using e True cd by simp
      have tr: "ran_since st0 (set_changed st') =
                  (map S [''/usr/ios/cli/ioscli'', ''lspv''], rep) #
                  (map S remove_cmd, (ret, out, err)) # rs"
        using rs(1) t1 t2 by (simp add: ran_since_def)
      have r2: "map fst (ran_since st0 (set_changed st')) =
             map S [''/usr/ios/cli/ioscli'', ''lspv''] # map S remove_cmd # map chpv_cmd ds"
        unfolding tr using rs(2) by simp
      have r3: "list_all (\<lambda>cr. ret_of cr = 0) (ran_since st0 (set_changed st'))"
        unfolding tr using rs(3) ok1 True by (simp add: ret_of_def)
      from o r2 r3 show ?thesis by simp
    next
      fix st' rs
      assume cd: "clear_disks w ds ?st3 = FailJson st'"
        and ch: "changed (res st') = changed (res ?st3)"
        and rs: "trace st' = trace ?st3 @ rs" "\<not> list_all (\<lambda>cr. ret_of cr = 0) rs"
      have o: "alt_disk_clean w hdisks st0 = FailJson st'" using e True cd by simp
      have nf: "\<not> changed (res st')" using ch c2 by simp
      have tr: "ran_since st0 st' =
                  (map S [''/usr/ios/cli/ioscli'', ''lspv''], rep) #
                  (map S remove_cmd, (ret, out, err)) # rs"
        using rs(1) t1 t2 by (simp add: ran_since_def)
      have nl: "\<not> list_all (\<lambda>cr. ret_of cr = 0) (ran_since st0 st')"
        unfolding tr using rs(2) by simp
      from o nf nl show ?thesis by simp
    qed
  qed
qed


text \<open>
  Claim C10. The clean operation starts with \<open>changed\<close> false. Every failure report
  it produces carries \<open>changed = False\<close>, also when the alternate volume group has
  already been removed and a later owner-clear command fails, and every normal return
  carries \<open>changed = True\<close>. \<open>changed\<close> is true at the end only if the listing gave
  a dictionary and the targets were accepted; and then it is true exactly when the
  operation ran the listing, the removal of the volume group and one owner-clear command
  for each disk of the target list computed by \<open>clean_targets\<close>, in this order, and
  every one of them exited with code 0.
\<close>

theorem alt_disk_clean_changed:
  assumes "\<not> changed (res st0)"
  shows "(\<forall>st. alt_disk_clean w hdisks st0 = FailJson st \<longrightarrow> \<not> changed (res st)) \<and>
         (\<forall>st. alt_disk_clean w hdisks st0 = Return () st \<longrightarrow> changed (res st)) \<and>
         (changed (res (final (alt_disk_clean w hdisks st0))) \<longrightarrow>
            (\<exists>pvs ds. fst (get_pvs w st0) = Some pvs \<and> clean_targets pvs hdisks = Inr ds)) \<and>
         (\<forall>pvs ds. fst (get_pvs w st0) = Some pvs \<and> clean_targets pvs hdisks = Inr ds \<longrightarrow>
            changed (res (final (alt_disk_clean w hdisks st0))) =
              (map fst (ran_since st0 (final (alt_disk_clean w hdisks st0))) =
                 map S [''/usr/ios/cli/ioscli'', ''lspv''] # map S remove_cmd # map chpv_cmd ds \<and>
               list_all (\<lambda>cr. ret_of cr = 0)
                 (ran_since st0 (final (alt_disk_clean w hdisks st0)))))"
proof (cases "\<exists>pvs ds. fst (get_pvs w st0) = Some pvs \<and> clean_targets pvs hdisks = Inr ds")
  case True
  then obtain pvs ds where pv: "fst (get_pvs w st0) = Some pvs"
    and tg: "clean_targets pvs hdisks = Inr ds" by blast
  note t = alt_disk_clean_targets [OF assms pv tg]
  from t have o: "(\<exists>st. alt_disk_clean w hdisks st0 = Return () st \<and> changed (res st)) \<or>
          (\<exists>st. alt_disk_clean w hdisks st0 = FailJson st \<and> \<not> changed (res st))"
    by (rule conjunct1)
  from t have i: "changed (res (final (alt_disk_clean w hdisks st0))) =
            (map fst (ran_since st0 (final (alt_disk_clean w hdisks st0))) =
               map S [''/usr/ios/cli/ioscli'', ''lspv''] # map S remove_cmd # map chpv_cmd ds \<and>
             list_all (\<lambda>cr. ret_of cr = 0) (ran_since st0 (final (alt_disk_clean w hdisks st0))))"
    by (rule conjunct2)
  have c1: "\<forall>st. alt_disk_clean w hdisks st0 = FailJson st \<longrightarrow> \<not> changed (res st)"
    using o by auto
  have c2: "\<forall>st. alt_disk_clean w hdisks st0 = Return () st \<longrightarrow> changed (res st)"
    using o by auto
  have c4: "\<forall>pvs' ds'. fst (get_pvs w st0) = Some pvs' \<and> clean_targets pvs' hdisks = Inr ds' \<longrightarrow>
            changed (res (final (alt_disk_clean w hdisks st0))) =
              (map fst (ran_since st0 (final (alt_disk_clean w hdisks st0))) =
                 map S [''/usr/ios/cli/ioscli'', ''lspv''] # map S remove_cmd # map chpv_cmd ds' \<and>
               list_all (\<lambda>cr. ret_of cr = 0)
                 (ran_since st0 (final (alt_disk_clean w hdisks st0))))"
  proof (intro allI impI)
    fix pvs' ds'
    assume "fst (get_pvs w st0) = Some pvs' \<and> clean_targets pvs' hdisks = Inr ds'"
    with pv tg have "ds' = ds" by simp
    with i show "changed (res (final (alt_disk_clean w hdisks st0))) =
              (map fst (ran_since st0 (final (alt_disk_clean w hdisks st0))) =
                 map S [''/usr/ios/cli/ioscli'', ''lspv''] # map S remove_cmd # map chpv_cmd ds' \<and>
               list_all (\<lambda>cr. ret_of cr = 0)
                 (ran_since st0 (final (alt_disk_clean w hdisks st0))))" by simp
  qed
  from c1 c2 True c4 show ?thesis by blast
next
  case False
  then have "fst (get_pvs w st0) = None \<or>
         (\<exists>pvs m. fst (get_pvs w st0) = Some pvs \<and> clean_targets pvs hdisks = Inl m)"
    by (cases "fst (get_pvs w st0)") (auto intro: sum.exhaust [of "clean_targets _ hdisks"])
  from alt_disk_clean_no_targets [OF assms this] obtain st where
    o: "alt_disk_clean w hdisks st0 = FailJson st" and n: "\<not> changed (res st)" by blast
  have c1: "\<forall>st. alt_disk_clean w hdisks st0 = FailJson st \<longrightarrow> \<not> changed (res st)"
    using o n by simp
  have c2: "\<forall>st. alt_disk_clean w hdisks st0 = Return () st \<longrightarrow> changed (res st)"
    using o by simp
  have c3: "changed (res (final (alt_disk_clean w hdisks st0))) \<longrightarrow>
            (\<exists>pvs ds. fst (get_pvs w st0) = Some pvs \<and> clean_targets pvs hdisks = Inr ds)"
    using o n by simp
  have c4: "\<forall>pvs ds. fst (get_pvs w st0) = Some pvs \<and> clean_targets pvs hdisks = Inr ds \<longrightarrow>
            changed (res (final (alt_disk_clean w hdisks st0))) =
              (map fst (ran_since st0 (final (alt_disk_clean w hdisks st0))) =
                 map S [''/usr/ios/cli/ioscli'', ''lspv''] # map S remove_cmd # map chpv_cmd ds \<and>
               list_all (\<lambda>cr. ret_of cr = 0)
                 (ran_since st0 (final (alt_disk_clean w hdisks st0))))"
    using False by blast
  from c1 c2 c3 c4 show ?thesis by (intro conjI)
qed

theorem alt_disk_clean_changed_witness:
  "\<not> changed (res init_state) \<and>
   alt_disk_clean host_clear_fails None init_state = FailJson clear_fails_final \<and>
   (map S remove_cmd, (0, ''removed'', [])) \<in> set (trace clear_fails_final) \<and>
   \<not> changed (res clear_fails_final) \<and>
   fst (get_pvs host_clean_ok init_state) = Some altinst_pvs \<and>
   clean_targets altinst_pvs None = Inr [''hdisk1'', ''hdisk2''] \<and>
   map fst (ran_since init_state (final (alt_disk_clean host_clean_ok None init_state))) =
     map S [''/usr/ios/cli/ioscli'', ''lspv''] # map S remove_cmd #
     map chpv_cmd [''hdisk1'', ''hdisk2''] \<and>
   list_all (\<lambda>cr. ret_of cr = 0)
     (ran_since init_state (final (alt_disk_clean host_clean_ok None init_state))) \<and>
   changed (res (final (alt_disk_clean host_clean_ok None init_state)))"
proof -
  have i: "\<not> changed (res init_state)" by (simp add: init_state_def)
  have f: "alt_disk_clean host_clear_fails None init_state = FailJson clear_fails_final"
    by code_simp
  from alt_disk_clean_changed [OF i, of host_clear_fails None]
  have "\<forall>st. alt_disk_clean host_clear_fails None init_state = FailJson st \<longrightarrow>
          \<not> changed (res st)" by (rule conjunct1)
  then have "alt_disk_clean host_clear_fails None init_state = FailJson clear_fails_final \<longrightarrow>
          \<not> changed (res clear_fails_final)" by (rule spec)
  from this f have nc: "\<not> changed (res clear_fails_final)" by (rule mp)
  have tr: "(map S remove_cmd, (0, ''removed'', [])) \<in> set (trace clear_fails_final)"
    by code_simp
  have pv: "fst (get_pvs host_clean_ok init_state) = Some altinst_pvs" by code_simp
  have tg: "clean_targets altinst_pvs None = Inr [''hdisk1'', ''hdisk2'']" by code_simp
  have rn: "map fst (ran_since init_state (final (alt_disk_clean host_clean_ok None init_state))) =
     map S [''/usr/ios/cli/ioscli'', ''lspv''] # map S remove_cmd #
     map chpv_cmd [''hdisk1'', ''hdisk2'']" by code_simp
  have al: "list_all (\<lambda>cr. ret_of cr = 0)
     (ran_since init_state (final (alt_disk_clean host_clean_ok None init_state)))" by code_simp
  from alt_disk_clean_changed [OF i, of host_clean_ok None]
  have "\<forall>pvs ds. fst (get_pvs host_clean_ok init_state) = Some pvs \<and>
            clean_targets pvs None = Inr ds \<longrightarrow>
            changed (res (final (alt_disk_clean host_clean_ok None init_state))) =
              (map fst (ran_since init_state (final (alt_disk_clean host_clean_ok None init_state))) =
                 map S [''/usr/ios/cli/ioscli'', ''lspv''] # map S remove_cmd # map chpv_cmd ds \<and>
               list_all (\<lambda>cr. ret_of cr = 0)
                 (ran_since init_state (final (alt_disk_clean host_clean_ok None init_state))))"
    (is "\<forall>pvs ds. ?P pvs ds")
    by (elim conjE)
  then have "\<forall>ds. ?P altinst_pvs ds" by (rule spec)
  then have "?P altinst_pvs [''hdisk1'', ''hdisk2'']" by (rule spec)
  moreover have "fst (get_pvs host_clean_ok init_state) = Some altinst_pvs \<and>
                 clean_targets altinst_pvs None = Inr [''hdisk1'', ''hdisk2'']"
    using pv tg by (rule conjI)
  ultimately have eq: "changed (res (final (alt_disk_clean host_clean_ok None init_state))) =
     (map fst (ran_since init_state (final (alt_disk_clean host_clean_ok None init_state))) =
        map S [''/usr/ios/cli/ioscli'', ''lspv''] # map S remove_cmd #
        map chpv_cmd [''hdisk1'', ''hdisk2''] \<and>
      list_all (\<lambda>cr. ret_of cr = 0)
        (ran_since init_state (final (alt_disk_clean host_clean_ok None init_state))))"
    by (rule mp)
  have "map fst (ran_since init_state (final (alt_disk_clean host_clean_ok None init_state))) =
        map S [''/usr/ios/cli/ioscli'', ''lspv''] # map S remove_cmd #
        map chpv_cmd [''hdisk1'', ''hdisk2''] \<and>
      list_all (\<lambda>cr. ret_of cr = 0)
        (ran_since init_state (final (alt_disk_clean host_clean_ok None init_state)))"
    using rn al by (rule conjI)
  with eq have ch: "changed (res (final (alt_disk_clean host_clean_ok None init_state)))"
    by (rule iffD2)
  from i f tr nc pv tg rn al ch show ?thesis by (intro conjI)
qed

subsection \<open>The inspection of rootvg\<close>

lemma check_rootvg_stale_rejected:
  assumes "w (map fst (trace st)) lsvg_map_cmd = (0, out, err)"
    and "str_find out ''stale'' > 0"
  shows "check_rootvg w st =
           Return None
             (set_msg ''rootvg contains stale partitions''
                (set_output out err (st\<lparr>trace := trace st @ [(lsvg_map_cmd, (0, out, err))]\<rparr>)))"
  using assms unfolding check_rootvg_def run_command_def lsvg_map_cmd_def
  by (simp add: Let_def del: append.simps)

text \<open>
  Claim C1 at a map whose text starts with \<open>stale\<close>: \<open>find\<close> returns index 0, the
  test \<open>> 0\<close> of line 373 is false, and the inspection returns the dictionary with status
  0 instead of rejecting the rootvg.
\<close>

theorem stale_at_start_accepted:
  "returned (check_rootvg host_stale init_state) =
     Some (Some \<lparr>status = 0, copy_dict = [(1, ''hdisk0'')], rootvg_size = 142848,
                  used_size = 512\<rparr>)"
  by code_simp

text \<open>
  Claim C4 at a summary that has the partition size and no total size: the inspection
  returns status 0 with \<open>rootvg_size = -1\<close>, the initial value of \<open>total_size\<close>,
  instead of a parse failure.
\<close>

theorem missing_total_accepted:
  "returned (check_rootvg host_no_total init_state) =
     Some (Some \<lparr>status = 0, copy_dict = [(1, ''hdisk0'')], rootvg_size = - 1,
                  used_size = 768\<rparr>)"
  by code_simp

subsection \<open>The loop over the map and the result of the inspection\<close>

lemma update_absent: "k \<notin> fst ` set al \<Longrightarrow> AList.update k v al = al @ [(k, v)]"
  by (induction al) auto

lemma map_pairs_Cons:
  "map_pairs (line # lines) =
     (case parse_map_line (rstrip line) of None \<Rightarrow> map_pairs lines | Some p \<Rightarrow> p # map_pairs lines)"
  by (simp add: map_pairs_def List.map_filter_simps split: option.splits)

lemma map_loop_skip:
  "parse_map_line (rstrip line) = None \<Longrightarrow> map_loop (line # lines) acc = map_loop lines acc"
  by (cases acc) simp

lemma map_invI:
  "\<lbrakk>distinct (map fst hdict); set hdict = set ps; distinct (map fst cdict);
    distinct (map snd cdict); set cdict \<subseteq> prod.swap ` set ps;
    fst ` set cdict = snd ` set ps; nb = int (length (filter (\<lambda>p. snd p = 1) ps))\<rbrakk>
   \<Longrightarrow> map_inv ps (nb, hdict, cdict)"
  by (simp add: map_inv_def)

lemma map_loop_step:
  assumes p: "parse_map_line (rstrip line) = Some (hdisk, copy)"
    and inv: "map_inv ps acc"
    and r: "map_loop (line # lines) acc = Inr fin"
  shows "\<exists>acc1. map_loop lines acc1 = Inr fin \<and> map_inv (ps @ [(hdisk, copy)]) acc1"
proof -
  obtain nb hdict cdict where acc: "acc = (nb, hdict, cdict)" by (cases acc)
  from inv acc have
    dh: "distinct (map fst hdict)" and sh: "set hdict = set ps" and
    dc: "distinct (map fst cdict)" and dv: "distinct (map snd cdict)" and
    sc: "set cdict \<subseteq> prod.swap ` set ps" and kc: "fst ` set cdict = snd ` set ps" and
    nb: "nb = int (length (filter (\<lambda>p. snd p = 1) ps))"
    by (simp_all add: map_inv_def)
  let ?ps = "ps @ [(hdisk, copy)]"
  let ?nb1 = "if copy = 1 then nb + 1 else nb"
  have nb1: "?nb1 = int (length (filter (\<lambda>p. snd p = 1) ?ps))"
    using nb by simp
  have sps: "set ?ps = insert (hdisk, copy) (set ps)" by simp
  have sc1: "set cdict \<subseteq> prod.swap ` set ?ps" using sc unfolding sps by blast
  have snd1: "snd ` set ?ps = insert copy (snd ` set ps)" unfolding sps by simp
  show ?thesis
  proof (cases "map_of hdict hdisk")
    case (Some c)
    with r p acc have c: "c = copy" by (auto simp: Let_def split: if_splits)
    from Some c have "(hdisk, copy) \<in> set hdict" by (simp add: map_of_SomeD)
    then have mem: "(hdisk, copy) \<in> set ps" using sh by simp
    then have "copy \<in> snd ` set ps" by force
    then have ck: "copy \<in> fst ` set cdict" using kc by simp
    from r p acc Some c ck have l: "map_loop lines (?nb1, hdict, cdict) = Inr fin"
      by (simp add: Let_def)
    have sh1: "set hdict = set ?ps" using sh mem unfolding sps by blast
    have kc1: "fst ` set cdict = snd ` set ?ps" using kc ck unfolding snd1 by blast
    have "map_inv ?ps (?nb1, hdict, cdict)"
      using dh sh1 dc dv sc1 kc1 nb1 by (rule map_invI)
    with l show ?thesis by blast
  next
    case None
    then have nh: "hdisk \<notin> fst ` set hdict" by (simp add: map_of_eq_None_iff)
    then have nhp: "hdisk \<notin> fst ` set ps" using sh by simp
    have nv: "hdisk \<notin> snd ` set cdict"
    proof
      assume "hdisk \<in> snd ` set cdict"
      then obtain c where "(c, hdisk) \<in> set cdict" by force
      with sc have "(c, hdisk) \<in> prod.swap ` set ps" by blast
      then have "(hdisk, c) \<in> set ps" by auto
      then have "hdisk \<in> fst ` set ps" by force
      with nhp show False ..
    qed
    let ?hd = "hdict @ [(hdisk, copy)]"
    have uh: "AList.update hdisk copy hdict = ?hd" using nh by (rule update_absent)
    have dh1: "distinct (map fst ?hd)" using dh nh by simp
    have sh1: "set ?hd = set ?ps" using sh by simp
    show ?thesis
    proof (cases "copy \<in> fst ` set cdict")
      case True
      with r p acc None uh have l: "map_loop lines (?nb1, ?hd, cdict) = Inr fin"
        by (simp add: Let_def)
      have kc1: "fst ` set cdict = snd ` set ?ps" using kc True unfolding snd1 by blast
      have "map_inv ?ps (?nb1, ?hd, cdict)"
        using dh1 sh1 dc dv sc1 kc1 nb1 by (rule map_invI)
      with l show ?thesis by blast
    next
      case False
      let ?cd = "cdict @ [(copy, hdisk)]"
      have uc: "AList.update copy hdisk cdict = ?cd" using False by (rule update_absent)
      from r p acc None uh uc False nv have l: "map_loop lines (?nb1, ?hd, ?cd) = Inr fin"
        by (simp add: Let_def)
      have dc1: "distinct (map fst ?cd)" using dc False by simp
      have dv1: "distinct (map snd ?cd)" using dv nv by simp
      have sc2: "set ?cd \<subseteq> prod.swap ` set ?ps" using sc1 by auto
      have kc1: "fst ` set ?cd = snd ` set ?ps" using kc unfolding snd1 by simp
      have "map_inv ?ps (?nb1, ?hd, ?cd)"
        using dh1 sh1 dc1 dv1 sc2 kc1 nb1 by (rule map_invI)
      with l show ?thesis by blast
    qed
  qed
qed

lemma map_loop_inv:
  "map_inv ps acc \<Longrightarrow> map_loop lines acc = Inr fin \<Longrightarrow> map_inv (ps @ map_pairs lines) fin"
proof (induction lines arbitrary: ps acc)
  case Nil
  then show ?case by (cases acc) (simp add: map_pairs_def List.map_filter_simps)
next
  case (Cons line lines)
  show ?case
  proof (cases "parse_map_line (rstrip line)")
    case None
    with Cons.prems(2) have "map_loop lines acc = Inr fin" by (simp add: map_loop_skip)
    from Cons.IH [OF Cons.prems(1) this] None show ?thesis by (simp add: map_pairs_Cons)
  next
    case (Some p)
    obtain hdisk copy where p: "p = (hdisk, copy)" by (cases p)
    from map_loop_step [OF Some [unfolded p] Cons.prems(1) Cons.prems(2)]
    obtain acc1 where "map_loop lines acc1 = Inr fin" "map_inv (ps @ [(hdisk, copy)]) acc1"
      by blast
    from Cons.IH [OF this(2) this(1)] Some p show ?thesis by (simp add: map_pairs_Cons)
  qed
qed

lemma map_loop_result:
  assumes "map_loop lines (0, [], []) = Inr fin"
  shows "map_inv (map_pairs lines) fin"
proof -
  have "map_inv [] (0, [], [])" by (simp add: map_inv_def)
  from map_loop_inv [OF this assms] show ?thesis by simp
qed

lemma rootvg_sizes_Some:
  assumes "rootvg_sizes w nb cdict pv st = Return (Some info) st'"
  shows "\<exists>total pp.
           foldl summary_line (- 1, - 1)
             (split_nl (fst (snd (w (map fst (trace st)) lsvg_cmd)))) = (total, pp) \<and>
           pp \<noteq> - 1 \<and>
           info = \<lparr>status = 0, copy_dict = cdict,
                   rootvg_size = (if length cdict > 1 then pp * pv else total),
                   used_size = pp * (nb + 1)\<rparr>"
proof -
  obtain ret out err st1 where
    rc: "run_command w (map S [''/usr/sbin/lsvg'', ''rootvg'']) st = ((ret, out, err), st1)"
    by (metis prod.exhaust)
  from run_command_effect [OF rc]
  have w: "w (map fst (trace st)) lsvg_cmd = (ret, out, err)" by (simp add: lsvg_cmd_def)
  obtain total pp where f: "foldl summary_line (- 1, - 1) (split_nl out) = (total, pp)"
    by (metis prod.exhaust)
  have e: "rootvg_sizes w nb cdict pv st =
     (if ret \<noteq> 0
      then Return None (set_msg (failed_msg [''/usr/sbin/lsvg'', ''rootvg''] ret)
                          (set_output out err st1))
      else if pp = - 1
      then Return None (set_msg ''Failed to get rootvg pp size, parsing error'' st1)
      else Return (Some \<lparr>status = 0, copy_dict = cdict,
                          rootvg_size = (if length cdict > 1 then pp * pv else total),
                          used_size = pp * (nb + 1)\<rparr>) st1)"
    unfolding rootvg_sizes_def using rc f by (simp del: append.simps)
  from assms [unfolded e] have "pp \<noteq> - 1" and
    "info = \<lparr>status = 0, copy_dict = cdict,
             rootvg_size = (if length cdict > 1 then pp * pv else total),
             used_size = pp * (nb + 1)\<rparr>"
    by (auto split: if_splits)
  with f w show ?thesis by simp
qed


lemma rootvg_mirrored_Some:
  assumes "rootvg_mirrored w nb hdict cdict st = Return (Some info) st'"
  shows "length cdict = length hdict \<and>
         (\<exists>pv st1. pv_loop (split_nl (fst (snd (w (map fst (trace st)) lsvg_pv_cmd)))) cdict (- 1) =
                      Inr pv \<and> pv \<noteq> - 1 \<and>
                    trace st1 = trace st @ [(lsvg_pv_cmd, w (map fst (trace st)) lsvg_pv_cmd)] \<and>
                    rootvg_sizes w nb cdict pv st1 = Return (Some info) st')"
proof -
  obtain ret out err st1 where
    rc: "run_command w (map S [''/usr/sbin/lsvg'', ''-p'', ''rootvg'']) st = ((ret, out, err), st1)"
    by (metis prod.exhaust)
  from run_command_effect [OF rc]
  have w: "w (map fst (trace st)) lsvg_pv_cmd = (ret, out, err)"
    and t: "trace st1 = trace st @ [(lsvg_pv_cmd, (ret, out, err))]"
    by (simp_all add: lsvg_pv_cmd_def)
  have e: "rootvg_mirrored w nb hdict cdict st =
     (if length cdict \<noteq> length hdict then Return None (set_msg msg_spread st)
      else if ret \<noteq> 0
      then Return None (set_msg (failed_msg [''/usr/sbin/lsvg'', ''-p'', ''rootvg''] ret)
                          (set_output out err st1))
      else (case pv_loop (split_nl out) cdict (- 1) of
              Inl e \<Rightarrow> Raise e st1
            | Inr pv_size \<Rightarrow>
                if pv_size = - 1
                then Return None (set_msg ''Failed to get pv size, parsing error'' st1)
                else rootvg_sizes w nb cdict pv_size st1))"
    unfolding rootvg_mirrored_def using rc by (simp del: append.simps)
  from assms [unfolded e] have l: "length cdict = length hdict" and r0: "ret = 0"
    by (auto split: if_splits)
  with assms [unfolded e] obtain pv where
    "pv_loop (split_nl out) cdict (- 1) = Inr pv" "pv \<noteq> - 1"
    "rootvg_sizes w nb cdict pv st1 = Return (Some info) st'"
    by (auto split: sum.splits if_splits)
  with l w t show ?thesis by auto
qed

lemma check_rootvg_Some:
  assumes "check_rootvg w st = Return (Some info) st'"
  shows "\<exists>nb hdict cdict total pp.
           map_loop (split_nl (map_text w st)) (0, [], []) = Inr (nb, hdict, cdict) \<and>
           foldl summary_line (- 1, - 1) (split_nl (summary_text w st (length cdict > 1))) =
             (total, pp) \<and>
           pp \<noteq> - 1 \<and> status info = 0 \<and> copy_dict info = cdict \<and>
           used_size info = pp * (nb + 1) \<and>
           (if length cdict > 1
            then \<exists>pv. pv_loop (split_nl (pv_text w st)) cdict (- 1) = Inr pv \<and> pv \<noteq> - 1 \<and>
                      rootvg_size info = pp * pv
            else rootvg_size info = total)"
proof -
  obtain ret out err st1 where
    rc: "run_command w (map S [''/usr/sbin/lsvg'', ''-M'', ''rootvg'']) st = ((ret, out, err), st1)"
    by (metis prod.exhaust)
  from run_command_effect [OF rc]
  have w: "w (map fst (trace st)) lsvg_map_cmd = (ret, out, err)"
    and t: "trace st1 = trace st @ [(lsvg_map_cmd, (ret, out, err))]"
    by (simp_all add: lsvg_map_cmd_def)
  have mt: "map_text w st = out" using w by (simp add: map_text_def)
  have e: "check_rootvg w st =
     (if ret \<noteq> 0
      then Return None (set_msg (failed_msg [''/usr/sbin/lsvg'', ''-M'', ''rootvg''] ret)
                          (set_output out err st1))
      else if str_find out ''stale'' > 0
      then Return None (set_msg ''rootvg contains stale partitions'' (set_output out err st1))
      else (case map_loop (split_nl out) (0, [], []) of
              Inl m \<Rightarrow> Return None (set_msg m st1)
            | Inr (nb_lp, hdict, cdict) \<Rightarrow>
                if length cdict > 1 then rootvg_mirrored w nb_lp hdict cdict st1
                else rootvg_sizes w nb_lp cdict (- 1) st1))"
    unfolding check_rootvg_def using rc by (simp del: append.simps)
  from assms [unfolded e] obtain nb hdict cdict where
    ml: "map_loop (split_nl out) (0, [], []) = Inr (nb, hdict, cdict)" and
    rest: "(if length cdict > 1 then rootvg_mirrored w nb hdict cdict st1
            else rootvg_sizes w nb cdict (- 1) st1) = Return (Some info) st'"
    by (auto split: if_splits sum.splits)
  show ?thesis
  proof (cases "length cdict > 1")
    case True
    with rest have "rootvg_mirrored w nb hdict cdict st1 = Return (Some info) st'" by simp
    from rootvg_mirrored_Some [OF this] obtain pv st2 where
      pv: "pv_loop (split_nl (fst (snd (w (map fst (trace st1)) lsvg_pv_cmd)))) cdict (- 1) = Inr pv"
        "pv \<noteq> - 1" and
      t2: "trace st2 = trace st1 @ [(lsvg_pv_cmd, w (map fst (trace st1)) lsvg_pv_cmd)]" and
      rs: "rootvg_sizes w nb cdict pv st2 = Return (Some info) st'" by blast
    from rootvg_sizes_Some [OF rs] obtain total pp where
      f: "foldl summary_line (- 1, - 1)
            (split_nl (fst (snd (w (map fst (trace st2)) lsvg_cmd)))) = (total, pp)"
        "pp \<noteq> - 1" and
      i: "info = \<lparr>status = 0, copy_dict = cdict,
                   rootvg_size = (if length cdict > 1 then pp * pv else total),
                   used_size = pp * (nb + 1)\<rparr>" by blast
    have pt: "pv_text w st = fst (snd (w (map fst (trace st1)) lsvg_pv_cmd))"
      using t by (simp add: pv_text_def)
    have sm: "summary_text w st True = fst (snd (w (map fst (trace st2)) lsvg_cmd))"
      using t t2 by (simp add: summary_text_def)
    from ml mt pv f i True pt sm show ?thesis by auto
  next
    case False
    with rest have rs: "rootvg_sizes w nb cdict (- 1) st1 = Return (Some info) st'" by simp
    from rootvg_sizes_Some [OF rs] obtain total pp where
      f: "foldl summary_line (- 1, - 1)
            (split_nl (fst (snd (w (map fst (trace st1)) lsvg_cmd)))) = (total, pp)"
        "pp \<noteq> - 1" and
      i: "info = \<lparr>status = 0, copy_dict = cdict,
                   rootvg_size = (if length cdict > 1 then pp * (- 1) else total),
                   used_size = pp * (nb + 1)\<rparr>" by blast
    have sm: "summary_text w st False = fst (snd (w (map fst (trace st1)) lsvg_cmd))"
      using t by (simp add: summary_text_def)
    from ml mt f i False sm show ?thesis by auto
  qed
qed

subsection \<open>What the inspection returns\<close>

lemma pv_rows_Cons:
  "pv_rows (line # lines) =
     (case re_match lsvg_p_rx (rstrip line) of
        None \<Rightarrow> pv_rows lines
      | Some gs \<Rightarrow> (group gs 1, int_of_digits (group gs 2)) # pv_rows lines)"
  by (simp add: pv_rows_def List.map_filter_simps split: option.splits)

lemma pv_loop_rows:
  "map_of cdict 1 = Some d \<Longrightarrow>
     pv_loop lines cdict acc =
       Inr (case map_of (pv_rows lines) d of
              Some n \<Rightarrow> n
            | None \<Rightarrow> last (acc # map snd (pv_rows lines)))"
proof (induction lines arbitrary: acc)
  case Nil
  then show ?case by (simp add: pv_rows_def List.map_filter_simps)
next
  case (Cons line lines)
  show ?case
  proof (cases "re_match lsvg_p_rx (rstrip line)")
    case None
    then have r: "pv_rows (line # lines) = pv_rows lines" by (simp add: pv_rows_Cons)
    from Cons None show ?thesis unfolding r by simp
  next
    case (Some gs)
    then have r: "pv_rows (line # lines) =
                    (group gs 1, int_of_digits (group gs 2)) # pv_rows lines"
      by (simp add: pv_rows_Cons)
    show ?thesis
    proof (cases "group gs 1 = d")
      case True
      with Cons.prems Some show ?thesis unfolding r by simp
    next
      case False
      then have "d \<noteq> group gs 1" by blast
      with Cons Some False show ?thesis unfolding r by (simp split: option.splits)
    qed
  qed
qed

lemma summary_Cons:
  "summary_totals (line # lines) =
     (case re_match total_rx (rstrip line) of
        None \<Rightarrow> summary_totals lines
      | Some gs \<Rightarrow> int_of_digits (group gs 1) # summary_totals lines)"
  "summary_pps (line # lines) =
     (case re_match total_rx (rstrip line) of
        None \<Rightarrow> (case re_match pp_rx (rstrip line) of
                   None \<Rightarrow> summary_pps lines
                 | Some gs \<Rightarrow> int_of_digits (group gs 1) # summary_pps lines)
      | Some gs \<Rightarrow> summary_pps lines)"
  by (simp_all add: summary_totals_def summary_pps_def List.map_filter_simps split: option.splits)

lemma summary_fold:
  "foldl summary_line (t, p) lines =
     (last (t # summary_totals lines), last (p # summary_pps lines))"
proof (induction lines arbitrary: t p)
  case Nil
  show ?case by (simp add: summary_totals_def summary_pps_def List.map_filter_simps)
next
  case (Cons line lines)
  show ?case
  proof (cases "re_match total_rx (rstrip line)")
    case None
    show ?thesis
    proof (cases "re_match pp_rx (rstrip line)")
      case n: None
      with None Cons show ?thesis by (simp add: summary_Cons summary_line_def)
    next
      case (Some gs)
      with None Cons show ?thesis by (simp add: summary_Cons summary_line_def)
    qed
  next
    case (Some gs)
    with Cons show ?thesis by (simp add: summary_Cons summary_line_def)
  qed
qed

lemma mirrored_length:
  assumes "map_inv ps (nb, hdict, cdict)"
  shows "length cdict = length (remdups (map snd ps))"
proof -
  from assms have d: "distinct (map fst cdict)" and k: "fst ` set cdict = snd ` set ps"
    by (simp_all add: map_inv_def)
  have "card (set (map fst cdict)) = length (map fst cdict)" using d by (rule distinct_card)
  then have "length cdict = card (set (map fst cdict))" by simp
  also have "set (map fst cdict) = set (map snd ps)" using k by simp
  also have "card (set (map snd ps)) = length (remdups (map snd ps))"
    by (simp add: length_remdups_card_conv)
  finally show ?thesis .
qed

text \<open>
  Claim C5, as the source decides it. In every dictionary returned with status 0,
  \<open>copy_dict\<close> binds each copy number once and no disk to two copy numbers; its copy
  numbers are exactly those read in the map, each bound to a disk it was read with; and
  no disk was read with two different copy numbers (the inspection fails otherwise).
  Nothing makes the copy numbers start at 1 or be contiguous.
\<close>

theorem check_rootvg_copy_dict:
  assumes "check_rootvg w st = Return (Some info) st'"
  shows "status info = 0 \<and>
         distinct (map fst (copy_dict info)) \<and> distinct (map snd (copy_dict info)) \<and>
         fst ` set (copy_dict info) = snd ` set (seen_pairs w st) \<and>
         set (copy_dict info) \<subseteq> prod.swap ` set (seen_pairs w st) \<and>
         (\<forall>d c c'. (d, c) \<in> set (seen_pairs w st) \<and> (d, c') \<in> set (seen_pairs w st) \<longrightarrow>
                   c = c')"
proof -
  from check_rootvg_Some [OF assms] obtain nb hdict cdict where
    ml: "map_loop (split_nl (map_text w st)) (0, [], []) = Inr (nb, hdict, cdict)" and
    s: "status info = 0" and c: "copy_dict info = cdict" by blast
  from map_loop_result [OF ml] have inv: "map_inv (seen_pairs w st) (nb, hdict, cdict)"
    by (simp add: seen_pairs_def)
  then have
    dh: "distinct (map fst hdict)" and sh: "set hdict = set (seen_pairs w st)" and
    dc: "distinct (map fst cdict)" and dv: "distinct (map snd cdict)" and
    sc: "set cdict \<subseteq> prod.swap ` set (seen_pairs w st)" and
    kc: "fst ` set cdict = snd ` set (seen_pairs w st)"
    by (simp_all add: map_inv_def)
  have fn: "\<forall>d c c'. (d, c) \<in> set (seen_pairs w st) \<and> (d, c') \<in> set (seen_pairs w st) \<longrightarrow>
                   c = c'"
    using dh sh eq_key_imp_eq_value by fastforce
  from s c dc dv kc sc fn show ?thesis by simp
qed

text \<open>
  The sizes of a dictionary returned with status 0, where the texts of the host give
  them: the summary gave a partition size, and the used size is that partition size times
  the number of lines of copy 1 in the map plus one. When more than one copy number was
  read and the per-disk listing has a row for the disk of copy 1, the total size is the
  partition size times the number of partitions of that row; when one copy number was
  read and the summary has a total size, the total size is that one.
\<close>

theorem check_rootvg_sizes:
  assumes "check_rootvg w st = Return (Some info) st'"
  shows "pp_sizes w st \<noteq> [] \<and>
         used_size info = last (pp_sizes w st) * (nb_copy1 w st + 1) \<and>
         (is_mirrored w st \<longrightarrow>
            (\<forall>d n. map_of (copy_dict info) 1 = Some d \<and> map_of (pv_counts w st) d = Some n \<longrightarrow>
                   rootvg_size info = last (pp_sizes w st) * n)) \<and>
         (\<not> is_mirrored w st \<longrightarrow>
            (total_sizes w st \<noteq> [] \<longrightarrow> rootvg_size info = last (total_sizes w st)))"
proof -
  from check_rootvg_Some [OF assms] obtain nb hdict cdict total pp where
    ml: "map_loop (split_nl (map_text w st)) (0, [], []) = Inr (nb, hdict, cdict)" and
    f: "foldl summary_line (- 1, - 1) (split_nl (summary_text w st (length cdict > 1))) =
          (total, pp)" and
    pp: "pp \<noteq> - 1" and c: "copy_dict info = cdict" and
    u: "used_size info = pp * (nb + 1)" and
    r: "if length cdict > 1
        then \<exists>pv. pv_loop (split_nl (pv_text w st)) cdict (- 1) = Inr pv \<and> pv \<noteq> - 1 \<and>
                  rootvg_size info = pp * pv
        else rootvg_size info = total" by blast
  from map_loop_result [OF ml] have inv: "map_inv (seen_pairs w st) (nb, hdict, cdict)"
    by (simp add: seen_pairs_def)
  then have nb: "nb = nb_copy1 w st" by (simp add: map_inv_def nb_copy1_def)
  from mirrored_length [OF inv] have m: "(length cdict > 1) = is_mirrored w st"
    by (simp add: is_mirrored_def)
  from f [unfolded summary_fold m] have
    t: "total = last (- 1 # total_sizes w st)" and p: "pp = last (- 1 # pp_sizes w st)"
    by (simp_all add: total_sizes_def pp_sizes_def)
  from p pp have ne: "pp_sizes w st \<noteq> []" by (cases "pp_sizes w st") auto
  with p have p': "pp = last (pp_sizes w st)" by simp
  have mir: "rootvg_size info = last (pp_sizes w st) * n"
    if "is_mirrored w st" "map_of (copy_dict info) 1 = Some d" "map_of (pv_counts w st) d = Some n"
    for d n
  proof -
    from r m that(1) obtain pv where
      "pv_loop (split_nl (pv_text w st)) cdict (- 1) = Inr pv" "rootvg_size info = pp * pv"
      by auto
    moreover from that(2) c have "map_of cdict 1 = Some d" by simp
    from pv_loop_rows [OF this, of "split_nl (pv_text w st)" "- 1"] that(3)
    have "pv_loop (split_nl (pv_text w st)) cdict (- 1) = Inr n" by (simp add: pv_counts_def)
    ultimately show ?thesis using p' by simp
  qed
  have unm: "rootvg_size info = last (total_sizes w st)"
    if "\<not> is_mirrored w st" "total_sizes w st \<noteq> []"
    using r m that t by simp
  from ne u p' nb mir unm show ?thesis by blast
qed


theorem check_rootvg_copy_dict_witness:
  "returned (check_rootvg host_mirrored init_state) = Some (Some mirrored_info) \<and>
   copy_dict mirrored_info = [(1, ''hdisk4''), (2, ''hdisk8'')] \<and>
   distinct (map fst (copy_dict mirrored_info)) \<and>
   distinct (map snd (copy_dict mirrored_info)) \<and>
   fst ` set (copy_dict mirrored_info) = snd ` set (seen_pairs host_mirrored init_state)"
proof -
  have r: "returned (check_rootvg host_mirrored init_state) = Some (Some mirrored_info)"
    by code_simp
  from returned_Some [OF r] obtain st' where
    e: "check_rootvg host_mirrored init_state = Return (Some mirrored_info) st'" ..
  note t = check_rootvg_copy_dict [OF e]
  have c: "copy_dict mirrored_info = [(1, ''hdisk4''), (2, ''hdisk8'')]"
    by (simp add: mirrored_info_def)
  from t have t1: "distinct (map fst (copy_dict mirrored_info))" by (elim conjE)
  from t have t2: "distinct (map snd (copy_dict mirrored_info))" by (elim conjE)
  from t have t3: "fst ` set (copy_dict mirrored_info) =
                     snd ` set (seen_pairs host_mirrored init_state)" by (elim conjE)
  from r c t1 t2 t3 show ?thesis by (intro conjI)
qed

text \<open>
  Claim C5 as the specification words it fails: a map whose only line carries copy number
  2 is accepted with status 0, and the copy numbers of its \<open>copy_dict\<close> do not start
  at 1.
\<close>

theorem copy_numbers_not_from_one:
  "returned (check_rootvg host_copy2 init_state) =
     Some (Some \<lparr>status = 0, copy_dict = [(2, ''hdisk0'')], rootvg_size = 142848,
                  used_size = 256\<rparr>)"
  by code_simp

theorem check_rootvg_sizes_witness:
  "returned (check_rootvg host_mirrored init_state) = Some (Some mirrored_info) \<and>
   is_mirrored host_mirrored init_state \<and>
   map_of (copy_dict mirrored_info) 1 = Some ''hdisk4'' \<and>
   map_of (pv_counts host_mirrored init_state) ''hdisk4'' = Some 639 \<and>
   pp_sizes host_mirrored init_state = [256] \<and>
   nb_copy1 host_mirrored init_state = 2 \<and>
   used_size mirrored_info =
     last (pp_sizes host_mirrored init_state) * (nb_copy1 host_mirrored init_state + 1) \<and>
   rootvg_size mirrored_info = last (pp_sizes host_mirrored init_state) * 639 \<and>
   returned (check_rootvg host_plain init_state) = Some (Some plain_info) \<and>
   is_mirrored host_plain init_state = False \<and>
   total_sizes host_plain init_state = [142848] \<and>
   rootvg_size plain_info = last (total_sizes host_plain init_state)"
proof -
  have r: "returned (check_rootvg host_mirrored init_state) = Some (Some mirrored_info)"
    by code_simp
  from returned_Some [OF r] obtain st' where
    e: "check_rootvg host_mirrored init_state = Return (Some mirrored_info) st'" ..
  note t = check_rootvg_sizes [OF e]
  have m: "is_mirrored host_mirrored init_state" by code_simp
  have c: "map_of (copy_dict mirrored_info) 1 = Some ''hdisk4''" by code_simp
  have p: "map_of (pv_counts host_mirrored init_state) ''hdisk4'' = Some 639" by code_simp
  have ps: "pp_sizes host_mirrored init_state = [256]" by code_simp
  have n: "nb_copy1 host_mirrored init_state = 2" by code_simp
  from t have u: "used_size mirrored_info =
     last (pp_sizes host_mirrored init_state) * (nb_copy1 host_mirrored init_state + 1)"
    by (elim conjE)
  from t m c p have s: "rootvg_size mirrored_info = last (pp_sizes host_mirrored init_state) * 639"
    by blast
  have r2: "returned (check_rootvg host_plain init_state) = Some (Some plain_info)"
    by code_simp
  from returned_Some [OF r2] obtain st2 where
    e2: "check_rootvg host_plain init_state = Return (Some plain_info) st2" ..
  note t2 = check_rootvg_sizes [OF e2]
  have m2: "is_mirrored host_plain init_state = False" by code_simp
  have ts: "total_sizes host_plain init_state = [142848]" by code_simp
  then have ne: "total_sizes host_plain init_state \<noteq> []" by simp
  from t2 m2 ne have s2: "rootvg_size plain_info = last (total_sizes host_plain init_state)"
    by blast
  from r m c p ps n u s r2 m2 ts s2 show ?thesis by (intro conjI)
qed

text \<open>
  Claim C6 at a mirrored rootvg whose per-disk listing has no row for \<open>hdisk4\<close>, the
  disk of copy 1: the loop of lines 434 to 441 sets \<open>pv_size\<close> from every row before it
  compares the name, so it ends with the 640 partitions of \<open>hdisk8\<close>, and the
  inspection returns status 0 with a total size of 256 times 640, the count of another
  disk, instead of the failure of line 444.
\<close>

theorem unlisted_copy1_disk_accepted:
  "returned (check_rootvg host_unlisted init_state) =
     Some (Some \<lparr>status = 0, copy_dict = [(1, ''hdisk4''), (2, ''hdisk8'')],
                  rootvg_size = 163840, used_size = 768\<rparr>) \<and>
   map_of (pv_counts host_unlisted init_state) ''hdisk4'' = None \<and>
   map_of (pv_counts host_unlisted init_state) ''hdisk8'' = Some 640"
proof -
  have a: "returned (check_rootvg host_unlisted init_state) =
     Some (Some \<lparr>status = 0, copy_dict = [(1, ''hdisk4''), (2, ''hdisk8'')],
                  rootvg_size = 163840, used_size = 768\<rparr>)" by code_simp
  have b: "map_of (pv_counts host_unlisted init_state) ''hdisk4'' = None" by code_simp
  have c: "map_of (pv_counts host_unlisted init_state) ''hdisk8'' = Some 640" by code_simp
  from a b c show ?thesis by (intro conjI)
qed

subsection \<open>The copy and the restoration of the mirroring\<close>

lemma mirror_cmd_Some:
  assumes "2 \<in> fst ` set copies_h" and "length copies_h > 2 \<longrightarrow> 3 \<in> fst ` set copies_h"
  shows "\<exists>c. mirror_cmd copies_h = Some c"
proof -
  from assms(1) obtain d2 where d2: "map_of copies_h 2 = Some d2"
    by (cases "map_of copies_h 2") (auto simp: map_of_eq_None_iff)
  show ?thesis
  proof (cases "length copies_h > 2")
    case True
    with assms(2) obtain d3 where "map_of copies_h 3 = Some d3"
      by (cases "map_of copies_h 3") (auto simp: map_of_eq_None_iff)
    with d2 True show ?thesis by (simp add: mirror_cmd_def Let_def)
  next
    case False
    with d2 show ?thesis by (simp add: mirror_cmd_def Let_def)
  qed
qed

lemma mirror_cmd_not_strings: "mirror_cmd copies_h = Some c \<Longrightarrow> arg_strs c = None"
  by (auto simp: mirror_cmd_def Let_def split: option.splits if_splits)


lemma copy_and_restore_mirrored:
  assumes len: "length copies_h > 1" and mc: "mirror_cmd copies_h = Some c"
    and cr: "copy_reply w st hdisks = (rc, oc, ec)"
    and mr: "mirror_reply w st hdisks c = (rm, om, em)"
  shows "\<exists>st2. trace st2 = trace st @ [(copy_cmd hdisks, (rc, oc, ec)), (c, (rm, om, em))] \<and>
           copy_and_restore w hdisks copies_h st =
             (if rm \<noteq> 0 then Raise TypeError (set_output om em st2)
              else if str_find em ''Failed to mirror the volume group'' \<noteq> - 1
              then FailJson (set_msg ''Failed to mirror rootvg'' (set_output om em st2))
              else if rc \<noteq> 0
              then FailJson (set_msg (msg_copy_failed hdisks rc) (set_output oc ec st2))
              else Return () (set_output oc ec st2))"
proof -
  obtain r1 st1 where r1: "run_command w (copy_cmd hdisks) st = (r1, st1)"
    by (metis prod.exhaust)
  from run_command_effect [OF r1] cr
  have t1: "trace st1 = trace st @ [(copy_cmd hdisks, (rc, oc, ec))]" and r1': "r1 = (rc, oc, ec)"
    by (simp_all add: copy_reply_def)
  define stc where "stc = (if rc = 0 then set_changed st1 else st1)"
  have tc: "trace stc = trace st1" by (simp add: stc_def)
  obtain r2 st2 where r2: "run_command w c (log ''Restoring mirror'' stc) = (r2, st2)"
    by (metis prod.exhaust)
  from run_command_effect [OF r2] mr tc t1
  have t2: "trace st2 = trace st @ [(copy_cmd hdisks, (rc, oc, ec)), (c, (rm, om, em))]"
    and r2': "r2 = (rm, om, em)"
    by (simp_all add: mirror_reply_def)
  have er: "restore_mirror w copies_h stc =
     (if rm \<noteq> 0 then Raise TypeError (set_output om em st2)
      else if str_find em ''Failed to mirror the volume group'' \<noteq> - 1
      then FailJson (set_msg ''Failed to mirror rootvg'' (set_output om em st2))
      else Return () st2)"
    unfolding restore_mirror_def using mc r2 r2' mirror_cmd_not_strings [OF mc]
    by (simp add: Let_def del: append.simps)
  have e: "copy_and_restore w hdisks copies_h st =
     and_then (restore_mirror w copies_h stc)
       (\<lambda>u st2. if rc \<noteq> 0
                 then FailJson (set_msg (msg_copy_failed hdisks rc) (set_output oc ec st2))
                 else Return () (set_output oc ec st2))"
    unfolding copy_and_restore_def stc_def using r1 r1' len by (simp del: append.simps)
  have "copy_and_restore w hdisks copies_h st =
             (if rm \<noteq> 0 then Raise TypeError (set_output om em st2)
              else if str_find em ''Failed to mirror the volume group'' \<noteq> - 1
              then FailJson (set_msg ''Failed to mirror rootvg'' (set_output om em st2))
              else if rc \<noteq> 0
              then FailJson (set_msg (msg_copy_failed hdisks rc) (set_output oc ec st2))
              else Return () (set_output oc ec st2))"
    unfolding e er by simp
  with t2 show ?thesis by blast
qed

text \<open>
  The copy on a mirrored rootvg whose \<open>copy_dict\<close> holds copy number 2 (and copy number
  3 when it holds more than two copies), after the mirroring has been stopped: the copy
  command and the restoration command are each run once, in this order, whatever the
  copy command returned. When the restoration succeeds and the copy failed, the
  invocation fails with the message and the output of the copy. When the restoration
  fails, the invocation ends by \<open>fail_json\<close> or by an exception, with the output of
  the restoration in the results; on exit code 0 with the failure marker the report is
  \<open>Failed to mirror rootvg\<close>.
\<close>

theorem copy_restores_mirror:
  assumes "length copies_h > 1" and "2 \<in> fst ` set copies_h"
    and "length copies_h > 2 \<longrightarrow> 3 \<in> fst ` set copies_h"
  shows "\<exists>c. mirror_cmd copies_h = Some c \<and>
           ran_since st (final (copy_and_restore w hdisks copies_h st)) =
             [(copy_cmd hdisks, copy_reply w st hdisks), (c, mirror_reply w st hdisks c)] \<and>
           (\<not> restore_failed (mirror_reply w st hdisks c) \<and> fst (copy_reply w st hdisks) \<noteq> 0
              \<longrightarrow> (\<exists>st'. copy_and_restore w hdisks copies_h st = FailJson st' \<and>
                         msg (res st') = msg_copy_failed hdisks (fst (copy_reply w st hdisks)) \<and>
                         stdout (res st') = fst (snd (copy_reply w st hdisks)) \<and>
                         stderr (res st') = snd (snd (copy_reply w st hdisks)))) \<and>
           (restore_failed (mirror_reply w st hdisks c)
              \<longrightarrow> fatal (copy_and_restore w hdisks copies_h st) \<and>
                  stdout (res (final (copy_and_restore w hdisks copies_h st))) =
                    fst (snd (mirror_reply w st hdisks c)) \<and>
                  stderr (res (final (copy_and_restore w hdisks copies_h st))) =
                    snd (snd (mirror_reply w st hdisks c))) \<and>
           (restore_failed (mirror_reply w st hdisks c) \<and> fst (mirror_reply w st hdisks c) = 0
              \<longrightarrow> (\<exists>st'. copy_and_restore w hdisks copies_h st = FailJson st' \<and>
                         msg (res st') = ''Failed to mirror rootvg''))"
proof -
  from mirror_cmd_Some [OF assms(2,3)] obtain c where mc: "mirror_cmd copies_h = Some c" ..
  obtain rc oc ec where cr: "copy_reply w st hdisks = (rc, oc, ec)" by (metis prod.exhaust)
  obtain rm om em where mr: "mirror_reply w st hdisks c = (rm, om, em)" by (metis prod.exhaust)
  from copy_and_restore_mirrored [OF assms(1) mc cr mr] obtain st2 where
    t2: "trace st2 = trace st @ [(copy_cmd hdisks, (rc, oc, ec)), (c, (rm, om, em))]" and
    e: "copy_and_restore w hdisks copies_h st =
             (if rm \<noteq> 0 then Raise TypeError (set_output om em st2)
              else if str_find em ''Failed to mirror the volume group'' \<noteq> - 1
              then FailJson (set_msg ''Failed to mirror rootvg'' (set_output om em st2))
              else if rc \<noteq> 0
              then FailJson (set_msg (msg_copy_failed hdisks rc) (set_output oc ec st2))
              else Return () (set_output oc ec st2))" by blast
  have rf: "restore_failed (rm, om, em) =
              (rm \<noteq> 0 \<or> str_find em ''Failed to mirror the volume group'' \<noteq> - 1)"
    by (simp add: restore_failed_def)
  have p1: "ran_since st (final (copy_and_restore w hdisks copies_h st)) =
             [(copy_cmd hdisks, (rc, oc, ec)), (c, (rm, om, em))]"
    unfolding e using t2 by (simp add: ran_since_def)
  have p2: "\<exists>st'. copy_and_restore w hdisks copies_h st = FailJson st' \<and>
                 msg (res st') = msg_copy_failed hdisks rc \<and>
                 stdout (res st') = oc \<and> stderr (res st') = ec"
    if "\<not> restore_failed (rm, om, em)" "rc \<noteq> 0"
    unfolding e using that rf by simp
  have p3: "fatal (copy_and_restore w hdisks copies_h st) \<and>
            stdout (res (final (copy_and_restore w hdisks copies_h st))) = om \<and>
            stderr (res (final (copy_and_restore w hdisks copies_h st))) = em"
    if "restore_failed (rm, om, em)"
    unfolding e using that rf by auto
  have p4: "\<exists>st'. copy_and_restore w hdisks copies_h st = FailJson st' \<and>
                 msg (res st') = ''Failed to mirror rootvg''"
    if "restore_failed (rm, om, em)" "rm = 0"
    unfolding e using that rf by simp
  have q1: "ran_since st (final (copy_and_restore w hdisks copies_h st)) =
             [(copy_cmd hdisks, copy_reply w st hdisks), (c, mirror_reply w st hdisks c)]"
    using p1 by (simp only: cr mr)
  have q2: "\<not> restore_failed (mirror_reply w st hdisks c) \<and> fst (copy_reply w st hdisks) \<noteq> 0
              \<longrightarrow> (\<exists>st'. copy_and_restore w hdisks copies_h st = FailJson st' \<and>
                         msg (res st') = msg_copy_failed hdisks (fst (copy_reply w st hdisks)) \<and>
                         stdout (res st') = fst (snd (copy_reply w st hdisks)) \<and>
                         stderr (res st') = snd (snd (copy_reply w st hdisks)))"
    unfolding cr mr using p2 by auto
  have q3: "restore_failed (mirror_reply w st hdisks c)
              \<longrightarrow> fatal (copy_and_restore w hdisks copies_h st) \<and>
                  stdout (res (final (copy_and_restore w hdisks copies_h st))) =
                    fst (snd (mirror_reply w st hdisks c)) \<and>
                  stderr (res (final (copy_and_restore w hdisks copies_h st))) =
                    snd (snd (mirror_reply w st hdisks c))"
    unfolding cr mr using p3 by auto
  have q4: "restore_failed (mirror_reply w st hdisks c) \<and> fst (mirror_reply w st hdisks c) = 0
              \<longrightarrow> (\<exists>st'. copy_and_restore w hdisks copies_h st = FailJson st' \<and>
                         msg (res st') = ''Failed to mirror rootvg'')"
    unfolding cr mr using p4 by auto
  from mc q1 q2 q3 q4 show ?thesis by blast
qed


theorem copy_restores_mirror_witness:
  "length two_copies > 1 \<and> mirror_cmd two_copies = Some mirror_two \<and>
   ran_since init_state
     (final (copy_and_restore host_copy_fails [''hdisk1''] two_copies init_state)) =
     [(copy_cmd [''hdisk1''], (1, ''copying'', ''copy failed'')), (mirror_two, (0, [], []))] \<and>
   fatal (copy_and_restore host_copy_fails [''hdisk1''] two_copies init_state) \<and>
   msg (res (final (copy_and_restore host_copy_fails [''hdisk1''] two_copies init_state))) =
     msg_copy_failed [''hdisk1''] 1 \<and>
   restore_failed (mirror_reply host_mirror_fails init_state [''hdisk1''] mirror_two) \<and>
   fatal (copy_and_restore host_mirror_fails [''hdisk1''] two_copies init_state) \<and>
   msg (res (final (copy_and_restore host_mirror_fails [''hdisk1''] two_copies init_state))) =
     ''Failed to mirror rootvg'' \<and>
   stderr (res (final (copy_and_restore host_mirror_fails [''hdisk1''] two_copies init_state))) =
     ''0516-1804 Failed to mirror the volume group''"
proof -
  have h1: "length two_copies > 1" by (simp add: two_copies_def)
  have h2: "2 \<in> fst ` set two_copies" by (simp add: two_copies_def)
  have h3: "length two_copies > 2 \<longrightarrow> 3 \<in> fst ` set two_copies" by (simp add: two_copies_def)
  have mt: "mirror_cmd two_copies = Some mirror_two" by code_simp
  have cr: "copy_reply host_copy_fails init_state [''hdisk1''] = (1, ''copying'', ''copy failed'')"
    by code_simp
  have mr: "mirror_reply host_copy_fails init_state [''hdisk1''] mirror_two = (0, [], [])"
    by code_simp
  have nf: "\<not> restore_failed (mirror_reply host_copy_fails init_state [''hdisk1''] mirror_two)"
    by code_simp
  have cf: "fst (copy_reply host_copy_fails init_state [''hdisk1'']) \<noteq> 0"
    by code_simp
  from copy_restores_mirror [OF h1 h2 h3, of init_state host_copy_fails "[''hdisk1'']"]
  obtain c where c: "mirror_cmd two_copies = Some c" and
    ran: "ran_since init_state
            (final (copy_and_restore host_copy_fails [''hdisk1''] two_copies init_state)) =
          [(copy_cmd [''hdisk1''], copy_reply host_copy_fails init_state [''hdisk1'']),
           (c, mirror_reply host_copy_fails init_state [''hdisk1''] c)]" and
    q2: "\<not> restore_failed (mirror_reply host_copy_fails init_state [''hdisk1''] c) \<and>
         fst (copy_reply host_copy_fails init_state [''hdisk1'']) \<noteq> 0 \<longrightarrow>
         (\<exists>st'. copy_and_restore host_copy_fails [''hdisk1''] two_copies init_state = FailJson st' \<and>
            msg (res st') =
              msg_copy_failed [''hdisk1''] (fst (copy_reply host_copy_fails init_state [''hdisk1''])) \<and>
            stdout (res st') = fst (snd (copy_reply host_copy_fails init_state [''hdisk1''])) \<and>
            stderr (res st') = snd (snd (copy_reply host_copy_fails init_state [''hdisk1''])))"
    by blast
  from c mt have cm: "c = mirror_two" by simp
  from ran have w1: "ran_since init_state
     (final (copy_and_restore host_copy_fails [''hdisk1''] two_copies init_state)) =
     [(copy_cmd [''hdisk1''], (1, ''copying'', ''copy failed'')), (mirror_two, (0, [], []))]"
    unfolding cm cr mr .
  from q2 [unfolded cm] nf cf obtain st' where
    f: "copy_and_restore host_copy_fails [''hdisk1''] two_copies init_state = FailJson st'" and
    m: "msg (res st') =
          msg_copy_failed [''hdisk1''] (fst (copy_reply host_copy_fails init_state [''hdisk1'']))"
    by blast
  have w2: "fatal (copy_and_restore host_copy_fails [''hdisk1''] two_copies init_state)"
    unfolding f by simp
  have w3: "msg (res (final (copy_and_restore host_copy_fails [''hdisk1''] two_copies init_state))) =
     msg_copy_failed [''hdisk1''] 1"
    unfolding f using m [unfolded cr] by simp
  have rf: "restore_failed (mirror_reply host_mirror_fails init_state [''hdisk1''] mirror_two)"
    by code_simp
  have r0: "fst (mirror_reply host_mirror_fails init_state [''hdisk1''] mirror_two) = 0"
    by code_simp
  have se: "snd (snd (mirror_reply host_mirror_fails init_state [''hdisk1''] mirror_two)) =
              ''0516-1804 Failed to mirror the volume group''"
    by code_simp
  from copy_restores_mirror [OF h1 h2 h3, of init_state host_mirror_fails "[''hdisk1'']"]
  obtain c' where c': "mirror_cmd two_copies = Some c'" and
    q3: "restore_failed (mirror_reply host_mirror_fails init_state [''hdisk1''] c') \<longrightarrow>
         fatal (copy_and_restore host_mirror_fails [''hdisk1''] two_copies init_state) \<and>
         stdout (res (final (copy_and_restore host_mirror_fails [''hdisk1''] two_copies init_state))) =
           fst (snd (mirror_reply host_mirror_fails init_state [''hdisk1''] c')) \<and>
         stderr (res (final (copy_and_restore host_mirror_fails [''hdisk1''] two_copies init_state))) =
           snd (snd (mirror_reply host_mirror_fails init_state [''hdisk1''] c'))" and
    q4: "restore_failed (mirror_reply host_mirror_fails init_state [''hdisk1''] c') \<and>
         fst (mirror_reply host_mirror_fails init_state [''hdisk1''] c') = 0 \<longrightarrow>
         (\<exists>st'. copy_and_restore host_mirror_fails [''hdisk1''] two_copies init_state = FailJson st' \<and>
            msg (res st') = ''Failed to mirror rootvg'')"
    by blast
  from c' mt have cm': "c' = mirror_two" by simp
  from q3 [unfolded cm'] rf have
    w4: "fatal (copy_and_restore host_mirror_fails [''hdisk1''] two_copies init_state)" and
    w6: "stderr (res (final (copy_and_restore host_mirror_fails [''hdisk1''] two_copies init_state))) =
           ''0516-1804 Failed to mirror the volume group''"
    unfolding se by blast+
  from q4 [unfolded cm'] rf r0 obtain st2 where
    f2: "copy_and_restore host_mirror_fails [''hdisk1''] two_copies init_state = FailJson st2" and
    m2: "msg (res st2) = ''Failed to mirror rootvg''" by blast
  have w5: "msg (res (final (copy_and_restore host_mirror_fails [''hdisk1''] two_copies init_state))) =
     ''Failed to mirror rootvg''"
    unfolding f2 using m2 by simp
  from h1 mt w1 w2 w3 rf w4 w5 w6 show ?thesis by (intro conjI)
qed

text \<open>
  Claim C2 at a rootvg whose map shows copies 1 and 3, with \<open>force\<close> set: the mirroring
  is stopped and the copy command runs, then \<open>copies_h[2]\<close> of line 549 raises
  \<open>KeyError\<close>, after \<open>Restoring mirror\<close> is logged, and no restoration command is
  run: the invocation ends with the rootvg left unmirrored.
\<close>

theorem copy_gap_mirror_not_restored:
  "raised (main host_gap copy_forced) = Some KeyError \<and>
   map fst (trace (final (main host_gap copy_forced))) =
     [lsvg_map_cmd, lsvg_pv_cmd, lsvg_cmd,
      map S [''/usr/ios/cli/ioscli'', ''lspv''],
      map S [''/usr/ios/cli/ioscli'', ''lspv'', ''-free''],
      map S [''/usr/sbin/unmirrorvg'', ''rootvg''],
      copy_cmd [''hdisk1'']]"
proof -
  have a: "raised (main host_gap copy_forced) = Some KeyError" by code_simp
  have b: "map fst (trace (final (main host_gap copy_forced))) =
     [lsvg_map_cmd, lsvg_pv_cmd, lsvg_cmd,
      map S [''/usr/ios/cli/ioscli'', ''lspv''],
      map S [''/usr/ios/cli/ioscli'', ''lspv'', ''-free''],
      map S [''/usr/sbin/unmirrorvg'', ''rootvg''],
      copy_cmd [''hdisk1'']]" by code_simp
  from a b show ?thesis ..
qed

text \<open>
  A restoration that exits with a non-zero code: the message of line 558 is built with
  \<open>' '.join(cmd)\<close> on a list that holds the integer \<open>nb_copies\<close>, which raises
  \<open>TypeError\<close> before \<open>fail_json\<close> is reached.
\<close>

lemma restore_exit_code_raises:
  "raised (copy_and_restore host_mirror_exit1 [''hdisk1''] two_copies init_state) =
     Some TypeError \<and>
   map fst (trace (final (copy_and_restore host_mirror_exit1 [''hdisk1''] two_copies init_state))) =
     [copy_cmd [''hdisk1''], mirror_two]"
proof -
  have a: "raised (copy_and_restore host_mirror_exit1 [''hdisk1''] two_copies init_state) =
     Some TypeError" by code_simp
  have b: "map fst (trace (final (copy_and_restore host_mirror_exit1 [''hdisk1''] two_copies
     init_state))) = [copy_cmd [''hdisk1''], mirror_two]" by code_simp
  from a b show ?thesis ..
qed

text \<open>
  Where the restoration takes place in \<open>alt_disk_copy\<close>: once the mirroring of a
  mirrored rootvg has been stopped, the rest of the operation is \<open>copy_and_restore\<close>.
\<close>

lemma alt_disk_copy_suspended:
  assumes "check_rootvg w st = Return (Some info) st1"
    and "find_valid_altdisk w (case hdisks of None \<Rightarrow> [] | Some l \<Rightarrow> l) info pol force st1 =
           Return hdisks1 st2"
    and "length (copy_dict info) > 1"
    and "suspend_mirror w force (st2\<lparr>logs := logs st2 @ [UsingDisks hdisks1]\<rparr>) = Return () st3"
  shows "alt_disk_copy w hdisks pol force st = copy_and_restore w hdisks1 (copy_dict info) st3"
  unfolding alt_disk_copy_def using assms by simp

end
